theory Spec2Isabelle
  imports Main
begin

section \<open>Values thrown and caught\<close>

text \<open>
  A thrown JavaScript value, as far as the \<^verbatim>\<open>catch\<close> blocks of this repository look at
  it: whether it is an instance of \<^verbatim>\<open>Error\<close>, its \<^verbatim>\<open>name\<close> and its \<^verbatim>\<open>message\<close>.
\<close>

record js_error =
  is_Error :: bool
  name :: string
  message :: string

definition new_Error :: "string \<Rightarrow> js_error" where
  "new_Error msg = \<lparr>is_Error = True, name = ''Error'', message = msg\<rparr>"

text \<open>The \<^verbatim>\<open>DOMException\<close> of the platform that rejects an aborted \<^verbatim>\<open>fetch\<close>.\<close>

definition AbortError :: js_error where
  "AbortError = \<lparr>is_Error = True, name = ''AbortError'', message = ''The operation was aborted.''\<rparr>"

text \<open>The exception of \<^verbatim>\<open>localStorage.setItem\<close> when the store refuses the write.\<close>

definition QuotaExceededError :: js_error where
  "QuotaExceededError =
     \<lparr>is_Error = True, name = ''QuotaExceededError'', message = ''The quota has been exceeded.''\<rparr>"

text \<open>The exception of touching \<^verbatim>\<open>window.localStorage\<close> when it is not available.\<close>

definition SecurityError :: js_error where
  "SecurityError =
     \<lparr>is_Error = True, name = ''SecurityError'', message = ''The operation is insecure.''\<rparr>"

section \<open>The durable store (\<^verbatim>\<open>window.localStorage\<close>)\<close>

text \<open>
  The store is the browser's, not the repository's: a text key-value map whose reads and
  writes may throw. Whether they throw is part of the store's state here, so that every
  \<^verbatim>\<open>try\<close>/\<^verbatim>\<open>catch\<close> of the hook has both of its branches in the model.
\<close>

record durable_store =
  items :: "string \<rightharpoonup> string"
  read_throws :: bool
  write_throws :: bool

definition getItem :: "string \<Rightarrow> durable_store \<Rightarrow> js_error + string option" where
  "getItem key store = (if read_throws store then Inl SecurityError else Inr (items store key))"

definition setItem :: "string \<Rightarrow> string \<Rightarrow> durable_store \<Rightarrow> js_error + durable_store" where
  "setItem key text store =
     (if write_throws store then Inl QuotaExceededError
      else Inr (store\<lparr>items := (items store)(key \<mapsto> text)\<rparr>))"

text \<open>An empty store that works, and an empty store whose quota is used up.\<close>

definition working_store :: durable_store where
  "working_store = \<lparr>items = Map.empty, read_throws = False, write_throws = False\<rparr>"

definition full_store :: durable_store where
  "full_store = \<lparr>items = Map.empty, read_throws = False, write_throws = True\<rparr>"

text \<open>A store whose text under the key k is not JSON.\<close>

definition corrupt_store :: durable_store where
  "corrupt_store = \<lparr>items = [''k'' \<mapsto> ''{oops''], read_throws = False, write_throws = False\<rparr>"

section \<open>The platform's JSON, on arrays of strings\<close>

text \<open>
  \<^verbatim>\<open>JSON.stringify\<close> and \<^verbatim>\<open>JSON.parse\<close> are the platform's; the hook below takes them as
  parameters. This section gives the instance the favorites slot runs with, for the type
  \<^verbatim>\<open>string[]\<close>: \<open>JSON_stringify\<close> quotes as ECMAScript's QuoteJSONString does (the short
  escapes, \<^verbatim>\<open>\u00xx\<close> for the other control characters), and \<open>JSON_parse\<close> reads an
  array of string literals with JSON's whitespace and escapes. A text that is JSON of another
  shape is not a value of the slot's type, and \<open>JSON_parse\<close> rejects it. Characters are
  8-bit code units.
\<close>

definition dquote :: char where
  "dquote = CHR 0x22"

definition backslash :: char where
  "backslash = CHR 0x5C"

definition hex_digit :: "nat \<Rightarrow> char" where
  "hex_digit d = (if d < 10 then char_of (48 + d) else char_of (87 + d))"

definition hex_value :: "char \<Rightarrow> nat option" where
  "hex_value c =
     (let n = of_char c :: nat in
      if 48 \<le> n \<and> n \<le> 57 then Some (n - 48)
      else if 97 \<le> n \<and> n \<le> 102 then Some (n - 87)
      else if 65 \<le> n \<and> n \<le> 70 then Some (n - 55)
      else None)"

definition quote_char :: "char \<Rightarrow> string" where
  "quote_char c =
     (if c = CHR 0x08 then [backslash, CHR ''b'']
      else if c = CHR 0x09 then [backslash, CHR ''t'']
      else if c = CHR 0x0A then [backslash, CHR ''n'']
      else if c = CHR 0x0C then [backslash, CHR ''f'']
      else if c = CHR 0x0D then [backslash, CHR ''r'']
      else if c = dquote then [backslash, dquote]
      else if c = backslash then [backslash, backslash]
      else if (of_char c :: nat) < 32 then
        [backslash, CHR ''u'', CHR ''0'', CHR ''0'',
         hex_digit (of_char c div 16), hex_digit (of_char c mod 16)]
      else [c])"

definition quote_string :: "string \<Rightarrow> string" where
  "quote_string s = dquote # concat (map quote_char s) @ [dquote]"

fun join_commas :: "string list \<Rightarrow> string" where
  "join_commas [] = []"
| "join_commas [x] = x"
| "join_commas (x # y # ys) = x @ CHR '','' # join_commas (y # ys)"

definition JSON_stringify :: "string list \<Rightarrow> string" where
  "JSON_stringify xs = CHR ''['' # join_commas (map quote_string xs) @ '']''"

definition unescape :: "char \<Rightarrow> char option" where
  "unescape e =
     (if e = dquote then Some dquote
      else if e = backslash then Some backslash
      else if e = CHR ''/'' then Some CHR ''/''
      else if e = CHR ''b'' then Some (CHR 0x08)
      else if e = CHR ''f'' then Some (CHR 0x0C)
      else if e = CHR ''n'' then Some (CHR 0x0A)
      else if e = CHR ''r'' then Some (CHR 0x0D)
      else if e = CHR ''t'' then Some (CHR 0x09)
      else None)"

definition unicode_escape :: "char \<Rightarrow> char \<Rightarrow> char \<Rightarrow> char \<Rightarrow> char option" where
  "unicode_escape a b c d =
     (case (hex_value a, hex_value b, hex_value c, hex_value d) of
        (Some h3, Some h2, Some h1, Some h0) \<Rightarrow>
          if h3 = 0 \<and> h2 = 0 then Some (char_of (16 * h1 + h0)) else None
      | _ \<Rightarrow> None)"

definition SyntaxError :: js_error where
  "SyntaxError =
     \<lparr>is_Error = True, name = ''SyntaxError'', message = ''Unexpected token in JSON''\<rparr>"

definition is_ws :: "char \<Rightarrow> bool" where
  "is_ws c = (c = CHR '' '' \<or> c = CHR 0x09 \<or> c = CHR 0x0A \<or> c = CHR 0x0D)"

datatype scan_mode = Start | First | Elem | InStr | AfterElem | Done

fun scan :: "scan_mode \<Rightarrow> string \<Rightarrow> string list \<Rightarrow> string \<Rightarrow> js_error + string list" where
  "scan m acc els [] = (if m = Done then Inr (rev els) else Inl SyntaxError)"
| "scan m acc els (c # cs) =
     (case m of
        Start \<Rightarrow>
          if is_ws c then scan Start acc els cs
          else if c = CHR ''['' then scan First acc els cs
          else Inl SyntaxError
      | First \<Rightarrow>
          if is_ws c then scan First acc els cs
          else if c = CHR '']'' then scan Done acc els cs
          else if c = dquote then scan InStr [] els cs
          else Inl SyntaxError
      | Elem \<Rightarrow>
          if is_ws c then scan Elem acc els cs
          else if c = dquote then scan InStr [] els cs
          else Inl SyntaxError
      | InStr \<Rightarrow>
          if c = dquote then scan AfterElem [] (rev acc # els) cs
          else if c = backslash then
            (case cs of
               [] \<Rightarrow> Inl SyntaxError
             | e # rest \<Rightarrow>
                 if e = CHR ''u'' then
                   (case rest of
                      h3 # h2 # h1 # h0 # rest' \<Rightarrow>
                        (case unicode_escape h3 h2 h1 h0 of
                           None \<Rightarrow> Inl SyntaxError
                         | Some ch \<Rightarrow> scan InStr (ch # acc) els rest')
                    | _ \<Rightarrow> Inl SyntaxError)
                 else
                   (case unescape e of
                      None \<Rightarrow> Inl SyntaxError
                    | Some ch \<Rightarrow> scan InStr (ch # acc) els rest))
          else if (of_char c :: nat) < 32 then Inl SyntaxError
          else scan InStr (c # acc) els cs
      | AfterElem \<Rightarrow>
          if is_ws c then scan AfterElem acc els cs
          else if c = CHR '','' then scan Elem acc els cs
          else if c = CHR '']'' then scan Done acc els cs
          else Inl SyntaxError
      | Done \<Rightarrow> if is_ws c then scan Done acc els cs else Inl SyntaxError)"

definition JSON_parse :: "string \<Rightarrow> js_error + string list" where
  "JSON_parse text = scan Start [] [] text"

section \<open>\<^verbatim>\<open>useLocalStorage\<close> (src/hooks/useLocalStorage.ts)\<close>

text \<open>What \<^verbatim>\<open>console.error\<close> received: which of the hook's two messages, the key, the error.\<close>

datatype console_entry =
  ErrorReading string js_error
  | ErrorSetting string js_error

text \<open>
  One slot: the React state \<^verbatim>\<open>storedValue\<close>, the store it is persisted to, and the console.
\<close>

record 'v slot =
  storedValue :: 'v
  storage :: durable_store
  console :: "console_entry list"

text \<open>
  The lazy initialiser of \<^verbatim>\<open>useState\<close>. \<^verbatim>\<open>JSON.parse\<close> is the platform's and is a parameter:
  \<open>parse text\<close> is \<open>Inl e\<close> when it throws \<open>e\<close>. The test \<^verbatim>\<open>item ? ... : initialValue\<close> takes
  the second branch for \<^verbatim>\<open>null\<close> (key absent) and for the empty string.
\<close>

definition useLocalStorage ::
  "(string \<Rightarrow> js_error + 'v) \<Rightarrow> string \<Rightarrow> 'v \<Rightarrow> durable_store \<Rightarrow> 'v slot" where
  "useLocalStorage parse key initialValue store =
     (case getItem key store of
        Inl e \<Rightarrow>
          \<lparr>storedValue = initialValue, storage = store, console = [ErrorReading key e]\<rparr>
      | Inr item \<Rightarrow>
          (case item of
             None \<Rightarrow> \<lparr>storedValue = initialValue, storage = store, console = []\<rparr>
           | Some text \<Rightarrow>
               if text = [] then \<lparr>storedValue = initialValue, storage = store, console = []\<rparr>
               else
                 (case parse text of
                    Inl e \<Rightarrow>
                      \<lparr>storedValue = initialValue, storage = store,
                       console = [ErrorReading key e]\<rparr>
                  | Inr v \<Rightarrow> \<lparr>storedValue = v, storage = store, console = []\<rparr>)))"

text \<open>The argument of \<^verbatim>\<open>setValue\<close>: a value, or a function of the previous value.\<close>

datatype 'v set_arg = Direct 'v | Updater "'v \<Rightarrow> 'v"

text \<open>
  \<^verbatim>\<open>setValue\<close>, as one render built it. The function closes over the \<^verbatim>\<open>storedValue\<close> that
  render read, here \<open>captured\<close>: a function argument is applied to that value, not to the
  state at the time of the call, and the state is set to the result by value. \<^verbatim>\<open>setStoredValue\<close>
  comes before \<^verbatim>\<open>setItem\<close>, so a throwing write finds the state already updated; the \<^verbatim>\<open>catch\<close>
  logs and returns. \<^verbatim>\<open>JSON.stringify\<close> is a parameter. A call from the latest render of the slot
  \<open>st\<close> has \<open>captured = storedValue st\<close>.
\<close>

definition setValue ::
  "('v \<Rightarrow> string) \<Rightarrow> string \<Rightarrow> 'v \<Rightarrow> 'v set_arg \<Rightarrow> 'v slot \<Rightarrow> 'v slot" where
  "setValue stringify key captured val st =
     (let valueToStore = (case val of Updater f \<Rightarrow> f captured | Direct v \<Rightarrow> v);
          st1 = st\<lparr>storedValue := valueToStore\<rparr>
      in case setItem key (stringify valueToStore) (storage st1) of
           Inl e \<Rightarrow> st1\<lparr>console := console st1 @ [ErrorSetting key e]\<rparr>
         | Inr store \<Rightarrow> st1\<lparr>storage := store\<rparr>)"

section \<open>\<^verbatim>\<open>FavoritesProvider\<close> (src/contexts/FavoritesContext.tsx)\<close>

definition favorites_key :: string where
  "favorites_key = ''recipe-favorites''"

definition FavoritesProvider ::
  "(string \<Rightarrow> js_error + string list) \<Rightarrow> durable_store \<Rightarrow> string list slot" where
  "FavoritesProvider parse store = useLocalStorage parse favorites_key [] store"

text \<open>
  The context value of a render: \<open>favorites\<close> is the slot's value at that render, and the
  two mutations are built on the \<^verbatim>\<open>setFavorites\<close> of that render, so they carry the favorites
  it captured. \<open>isFavorite\<close> is the query of the render of \<open>st\<close>.
\<close>

definition favorites :: "string list slot \<Rightarrow> string list" where
  "favorites st = storedValue st"

definition addFavorite ::
  "(string list \<Rightarrow> string) \<Rightarrow> string list \<Rightarrow> string \<Rightarrow> string list slot
     \<Rightarrow> string list slot" where
  "addFavorite stringify captured recipeId st =
     setValue stringify favorites_key captured
       (Updater (\<lambda>prevFavorites.
          if recipeId \<in> set prevFavorites then prevFavorites
          else prevFavorites @ [recipeId])) st"

definition removeFavorite ::
  "(string list \<Rightarrow> string) \<Rightarrow> string list \<Rightarrow> string \<Rightarrow> string list slot
     \<Rightarrow> string list slot" where
  "removeFavorite stringify captured recipeId st =
     setValue stringify favorites_key captured
       (Updater (\<lambda>prevFavorites. filter (\<lambda>id. id \<noteq> recipeId) prevFavorites)) st"

definition isFavorite :: "string \<Rightarrow> string list slot \<Rightarrow> bool" where
  "isFavorite recipeId st = (recipeId \<in> set (favorites st))"

text \<open>
  The duplicate-free ordered sequence the favorites are specified as: \<open>add\<close> leaves the
  sequence alone when the id is present and appends it otherwise, \<open>remove\<close> deletes the id
  when present and leaves the sequence alone otherwise, \<open>list\<close> is the sequence itself.
\<close>

definition spec_add :: "string \<Rightarrow> string list \<Rightarrow> string list" where
  "spec_add recipeId s = (if recipeId \<in> set s then s else s @ [recipeId])"

definition spec_remove :: "string \<Rightarrow> string list \<Rightarrow> string list" where
  "spec_remove recipeId s = (if recipeId \<in> set s then removeAll recipeId s else s)"

section \<open>Locators (src/services/api.ts)\<close>

text \<open>\<^verbatim>\<open>encodeURIComponent\<close> is the platform's and is the parameter \<open>enc\<close>.\<close>

definition BASE_URL :: string where
  "BASE_URL = ''https://www.themealdb.com/api/json/v1/1''"

definition getRecipesByCategoryUrl :: "(string \<Rightarrow> string) \<Rightarrow> string \<Rightarrow> string" where
  "getRecipesByCategoryUrl enc categoryName = BASE_URL @ ''/filter.php?c='' @ enc categoryName"

section \<open>What a retrieval can come back with\<close>

text \<open>
  A \<^verbatim>\<open>Response\<close>: its status, and what \<^verbatim>\<open>await response.json()\<close> gives, the parsed body
  or the error it rejects with. \<^verbatim>\<open>response.ok\<close> is the status range 200 to 299. The promise of
  \<^verbatim>\<open>fetch\<close> itself either rejects (\<open>Inl\<close>) or resolves to a response.
\<close>

record 'a response =
  status :: nat
  json :: "js_error + 'a"

definition ok :: "'a response \<Rightarrow> bool" where
  "ok r = (200 \<le> status r \<and> status r \<le> 299)"

type_synonym 'a fetch_outcome = "js_error + 'a response"

text \<open>The envelope of the recipe endpoints, \<^verbatim>\<open>{ meals: T[] | null }\<close>.\<close>

record 'r meals_response =
  meals :: "'r list option"

text \<open>A number in a template literal: its decimal digits.\<close>

fun string_of_nat :: "nat \<Rightarrow> string" where
  "string_of_nat n =
     (if n < 10 then [''0123456789'' ! n]
      else string_of_nat (n div 10) @ [''0123456789'' ! (n mod 10)])"

section \<open>\<^verbatim>\<open>useFetch\<close> (src/hooks/useFetch.ts)\<close>

text \<open>
  A retrieval that \<^verbatim>\<open>fetchData\<close> has issued and that has not come back: the address, and
  whether its \<^verbatim>\<open>AbortController\<close> has been aborted.
\<close>

record retrieval =
  target :: string
  aborted :: bool

text \<open>
  One instance of the hook: the three React states; the \<^verbatim>\<open>url\<close> of the last render (the
  effect's dependency); whether the component is mounted; the controller of the effect that
  ran last (\<open>None\<close> when that effect returned at \<^verbatim>\<open>if (!url)\<close>, which leaves no cleanup);
  the retrievals in flight, newest first, by controller; and how many were issued.
\<close>

record 'a useFetch_state =
  data :: "'a option"
  loading :: bool
  error :: "string option"
  url :: "string option"
  mounted :: bool
  controller :: "nat option"
  inflight :: "(nat \<times> retrieval) list"
  issued :: nat

text \<open>A state setter of a component that has unmounted changes nothing.\<close>

definition setData :: "'a option \<Rightarrow> 'a useFetch_state \<Rightarrow> 'a useFetch_state" where
  "setData v st = (if mounted st then st\<lparr>data := v\<rparr> else st)"

definition setLoading :: "bool \<Rightarrow> 'a useFetch_state \<Rightarrow> 'a useFetch_state" where
  "setLoading v st = (if mounted st then st\<lparr>loading := v\<rparr> else st)"

definition setError :: "string option \<Rightarrow> 'a useFetch_state \<Rightarrow> 'a useFetch_state" where
  "setError v st = (if mounted st then st\<lparr>error := v\<rparr> else st)"

text \<open>\<^verbatim>\<open>!url\<close> is false for a non-empty string only.\<close>

definition truthy :: "string option \<Rightarrow> bool" where
  "truthy u = (case u of None \<Rightarrow> False | Some s \<Rightarrow> s \<noteq> [])"

text \<open>
  The body of the effect up to the first \<^verbatim>\<open>await\<close>: return when the url is falsy; otherwise a
  new controller, \<^verbatim>\<open>setLoading(true)\<close>, \<^verbatim>\<open>setError(null)\<close>, and the \<^verbatim>\<open>fetch\<close> is issued.
\<close>

definition useFetch_effect :: "string option \<Rightarrow> 'a useFetch_state \<Rightarrow> 'a useFetch_state" where
  "useFetch_effect u st =
     (case u of
        None \<Rightarrow> st\<lparr>controller := None\<rparr>
      | Some s \<Rightarrow>
          if s = [] then st\<lparr>controller := None\<rparr>
          else
            (setError None (setLoading True st))
              \<lparr>controller := Some (issued st),
               inflight := (issued st, \<lparr>target = s, aborted = False\<rparr>) # inflight st,
               issued := Suc (issued st)\<rparr>)"

text \<open>The cleanup the effect returned: \<^verbatim>\<open>abortController.abort()\<close>.\<close>

definition useFetch_cleanup :: "'a useFetch_state \<Rightarrow> 'a useFetch_state" where
  "useFetch_cleanup st =
     (case controller st of
        None \<Rightarrow> st
      | Some c \<Rightarrow>
          st\<lparr>inflight :=
               map (\<lambda>(i, r). if i = c then (i, r\<lparr>aborted := True\<rparr>) else (i, r)) (inflight st)\<rparr>)"

text \<open>The first render: the initial states, then the effect.\<close>

definition useFetch :: "string option \<Rightarrow> 'a useFetch_state" where
  "useFetch u =
     useFetch_effect u
       \<lparr>data = None, loading = False, error = None, url = u, mounted = True,
        controller = None, inflight = [], issued = 0\<rparr>"

text \<open>
  A later render with the locator \<open>u\<close>: when the dependency changed, the cleanup of the
  previous effect and then the effect again.
\<close>

definition rerender :: "string option \<Rightarrow> 'a useFetch_state \<Rightarrow> 'a useFetch_state" where
  "rerender u st =
     (if \<not> mounted st \<or> u = url st then st
      else useFetch_effect u ((useFetch_cleanup st)\<lparr>url := u\<rparr>))"

definition unmount :: "'a useFetch_state \<Rightarrow> 'a useFetch_state" where
  "unmount st = (if mounted st then (useFetch_cleanup st)\<lparr>mounted := False\<rparr> else st)"

text \<open>The \<^verbatim>\<open>try\<close> block of \<^verbatim>\<open>fetchData\<close> after the \<^verbatim>\<open>fetch\<close>: what it throws, or the result.\<close>

definition fetchData_try :: "'a fetch_outcome \<Rightarrow> js_error + 'a" where
  "fetchData_try outcome =
     (case outcome of
        Inl err \<Rightarrow> Inl err
      | Inr response \<Rightarrow>
          if \<not> ok response
          then Inl (new_Error (''HTTP error! status: '' @ string_of_nat (status response)))
          else json response)"

text \<open>
  The rest of \<^verbatim>\<open>fetchData\<close>, run in one turn when the retrieval comes back (React 18 batches
  its updates): \<^verbatim>\<open>setData\<close> or the \<^verbatim>\<open>catch\<close>, then the \<^verbatim>\<open>finally\<close>.
\<close>

definition fetchData_resume :: "'a fetch_outcome \<Rightarrow> 'a useFetch_state \<Rightarrow> 'a useFetch_state" where
  "fetchData_resume outcome st =
     setLoading False
       (case fetchData_try outcome of
          Inr result \<Rightarrow> setData (Some result) st
        | Inl err \<Rightarrow>
            if is_Error err \<and> name err \<noteq> ''AbortError''
            then setError
                   (Some (if message err \<noteq> [] then message err else ''Failed to fetch data'')) st
            else st)"

text \<open>
  The retrieval of controller \<open>c\<close> comes back. The platform rejects a retrieval whose signal
  was aborted with an \<^verbatim>\<open>AbortError\<close>, whatever the network had for it.
\<close>

definition settle :: "nat \<Rightarrow> 'a fetch_outcome \<Rightarrow> 'a useFetch_state \<Rightarrow> 'a useFetch_state" where
  "settle c outcome st =
     (case map_of (inflight st) c of
        None \<Rightarrow> st
      | Some r \<Rightarrow>
          fetchData_resume (if aborted r then Inl AbortError else outcome)
            (st\<lparr>inflight := filter (\<lambda>(i, r). i \<noteq> c) (inflight st)\<rparr>))"

text \<open>What a consumer reads from the three states, in the order the pages test them.\<close>

datatype 'a outcome = Idle | Pending | Succeeded 'a | Failed string

definition observed :: "'a useFetch_state \<Rightarrow> 'a outcome" where
  "observed st =
     (if loading st then Pending
      else if truthy (error st) then Failed (the (error st))
      else (case data st of None \<Rightarrow> Idle | Some payload \<Rightarrow> Succeeded payload))"

section \<open>\<^verbatim>\<open>CategoryPage\<close> (src/pages/CategoryPage.tsx)\<close>

datatype 'r view = Spinner | ErrorMessage string | NoResults | EmptyFavorites | RecipeGrid "'r list"

definition CategoryPage_url :: "(string \<Rightarrow> string) \<Rightarrow> string option \<Rightarrow> string option" where
  "CategoryPage_url enc categoryName =
     (if truthy categoryName then Some (getRecipesByCategoryUrl enc (the categoryName)) else None)"

definition CategoryPage :: "'r meals_response useFetch_state \<Rightarrow> 'r view" where
  "CategoryPage st =
     (if loading st then Spinner
      else if truthy (error st) then ErrorMessage (the (error st))
      else (case data st of
              None \<Rightarrow> NoResults
            | Some d \<Rightarrow> (case meals d of None \<Rightarrow> NoResults | Some ms \<Rightarrow> RecipeGrid ms)))"

section \<open>\<^verbatim>\<open>FavoritesPage\<close> (src/pages/FavoritesPage.tsx)\<close>

text \<open>
  One run of \<^verbatim>\<open>fetchFavoriteRecipes\<close> waiting at \<^verbatim>\<open>Promise.all\<close>: the ids it mapped over and,
  per id, what its promise fulfilled with (\<open>None\<close>: not yet; the value is \<^verbatim>\<open>meals[0]\<close>, which
  is \<^verbatim>\<open>undefined\<close> for an empty array).
\<close>

record 'r batch =
  ids :: "string list"
  slots :: "'r option option list"

text \<open>
  The page: its three React states, the favorites of the last render, the runs that have
  not finished (newest first, by number), and how many were started. The effect returns no
  cleanup.
\<close>

record 'r page =
  favoriteRecipes :: "'r list"
  page_loading :: bool
  page_error :: "string option"
  page_favorites :: "string list"
  batches :: "(nat \<times> 'r batch) list"
  started :: nat

text \<open>
  The effect, up to the \<^verbatim>\<open>await Promise.all\<close>: with no favorites it clears the recipes and
  returns; otherwise \<^verbatim>\<open>setLoading(true)\<close>, \<^verbatim>\<open>setError(null)\<close>, and \<^verbatim>\<open>favorites.map\<close> issues one
  \<^verbatim>\<open>fetch\<close> per id before anything is awaited.
\<close>

definition FavoritesPage_effect :: "string list \<Rightarrow> 'r page \<Rightarrow> 'r page" where
  "FavoritesPage_effect favs st =
     (if length favs = 0 then st\<lparr>favoriteRecipes := []\<rparr>
      else st\<lparr>page_loading := True, page_error := None,
              batches := (started st, \<lparr>ids = favs, slots = replicate (length favs) None\<rparr>)
                         # batches st,
              started := Suc (started st)\<rparr>)"

definition FavoritesPage :: "string list \<Rightarrow> 'r page" where
  "FavoritesPage favs =
     FavoritesPage_effect favs
       \<lparr>favoriteRecipes = [], page_loading = False, page_error = None,
        page_favorites = favs, batches = [], started = 0\<rparr>"

text \<open>A render with a new favorites array: the effect runs again.\<close>

definition favorites_changed :: "string list \<Rightarrow> 'r page \<Rightarrow> 'r page" where
  "favorites_changed favs st = FavoritesPage_effect favs (st\<lparr>page_favorites := favs\<rparr>)"

text \<open>
  Reading \<^verbatim>\<open>[0]\<close> of \<^verbatim>\<open>null\<close> throws a \<^verbatim>\<open>TypeError\<close>; the message is the engine's (here V8's).
\<close>

definition null_meals_TypeError :: js_error where
  "null_meals_TypeError =
     \<lparr>is_Error = True, name = ''TypeError'',
      message = ''Cannot read properties of null (reading '' @ [CHR 0x27, CHR ''0'', CHR 0x27]
                @ '')''\<rparr>"

text \<open>
  The \<^verbatim>\<open>async (recipeId) => ...\<close> that \<^verbatim>\<open>favorites.map\<close> runs, after its \<^verbatim>\<open>fetch\<close> came back:
  what the promise rejects with, or \<^verbatim>\<open>data.meals[0]\<close>.
\<close>

definition fetchPromise :: "string \<Rightarrow> 'r meals_response fetch_outcome \<Rightarrow> js_error + 'r option" where
  "fetchPromise recipeId outcome =
     (case outcome of
        Inl err \<Rightarrow> Inl err
      | Inr response \<Rightarrow>
          if \<not> ok response then Inl (new_Error (''Failed to fetch recipe '' @ recipeId))
          else
            (case json response of
               Inl err \<Rightarrow> Inl err
             | Inr d \<Rightarrow>
                 (case meals d of
                    None \<Rightarrow> Inl null_meals_TypeError
                  | Some ms \<Rightarrow> Inr (case ms of [] \<Rightarrow> None | m # _ \<Rightarrow> Some m))))"

text \<open>The \<^verbatim>\<open>catch\<close> and \<^verbatim>\<open>finally\<close> of \<^verbatim>\<open>fetchFavoriteRecipes\<close>.\<close>

definition catch_message :: "js_error \<Rightarrow> string" where
  "catch_message err = (if is_Error err then message err else ''Failed to load favorites'')"

definition batch_rejected :: "js_error \<Rightarrow> 'r page \<Rightarrow> 'r page" where
  "batch_rejected err st = st\<lparr>page_error := Some (catch_message err), page_loading := False\<rparr>"

text \<open>\<^verbatim>\<open>setFavoriteRecipes(recipes.filter(Boolean))\<close> and the \<^verbatim>\<open>finally\<close>.\<close>

definition batch_fulfilled :: "'r option list \<Rightarrow> 'r page \<Rightarrow> 'r page" where
  "batch_fulfilled recipes st =
     st\<lparr>favoriteRecipes := List.map_filter (\<lambda>r. r) recipes, page_loading := False\<rparr>"

definition drop_batch :: "nat \<Rightarrow> 'r page \<Rightarrow> 'r page" where
  "drop_batch b st = st\<lparr>batches := filter (\<lambda>(n, bt). n \<noteq> b) (batches st)\<rparr>"

text \<open>
  The retrieval for the \<open>i\<close>-th id of run \<open>b\<close> comes back. A rejection rejects
  \<^verbatim>\<open>Promise.all\<close> at once; a fulfilment fills the slot, and \<^verbatim>\<open>Promise.all\<close> fulfils when the
  last slot is filled. A run that has finished, or a slot that is filled, takes nothing more.
\<close>

definition settle_recipe ::
  "nat \<Rightarrow> nat \<Rightarrow> 'r meals_response fetch_outcome \<Rightarrow> 'r page \<Rightarrow> 'r page" where
  "settle_recipe b i outcome st =
     (case map_of (batches st) b of
        None \<Rightarrow> st
      | Some bt \<Rightarrow>
          if length (slots bt) \<le> i \<or> length (ids bt) \<le> i \<or> slots bt ! i \<noteq> None then st
          else
            (case fetchPromise (ids bt ! i) outcome of
               Inl err \<Rightarrow> batch_rejected err (drop_batch b st)
             | Inr v \<Rightarrow>
                 (let filled = (slots bt)[i := Some v] in
                  if None \<in> set filled
                  then st\<lparr>batches := (b, bt\<lparr>slots := filled\<rparr>) # batches (drop_batch b st)\<rparr>
                  else batch_fulfilled (map the filled) (drop_batch b st))))"

definition FavoritesPage_render :: "'r page \<Rightarrow> 'r view" where
  "FavoritesPage_render st =
     (if page_loading st then Spinner
      else if truthy (page_error st) then ErrorMessage (the (page_error st))
      else if length (page_favorites st) = 0 then EmptyFavorites
      else RecipeGrid (favoriteRecipes st))"

text \<open>The recipe cards a view shows.\<close>

definition cards :: "'r view \<Rightarrow> 'r list" where
  "cards v = (case v of RecipeGrid rs \<Rightarrow> rs | _ \<Rightarrow> [])"

section \<open>\<^verbatim>\<open>extractIngredients\<close> (src/services/api.ts)\<close>

text \<open>
  The recipe is a \<^verbatim>\<open>Record<string, string | null>\<close>: a field that is \<^verbatim>\<open>null\<close> or not there
  is \<open>None\<close>. \<^verbatim>\<open>String.prototype.trim\<close> is the platform's and is the parameter \<open>trim\<close>.
\<close>

record ingredient_entry =
  ingredient :: string
  measure_s :: string

text \<open>
  The body of the \<^verbatim>\<open>for\<close> loop from \<open>i\<close> on, with the array built so far. An ingredient
  is included when the field is a non-empty string whose trimmed form is not empty; the
  measure is trimmed when it is a non-empty string and is the empty string otherwise.
\<close>

function extractIngredients_loop ::
  "(string \<Rightarrow> string) \<Rightarrow> (string \<rightharpoonup> string) \<Rightarrow> nat \<Rightarrow> ingredient_entry list
     \<Rightarrow> ingredient_entry list" where
  "extractIngredients_loop trim recipe i ingredients =
     (if i \<le> 20 then
        (let ing = recipe (''strIngredient'' @ string_of_nat i);
             mea = recipe (''strMeasure'' @ string_of_nat i)
         in extractIngredients_loop trim recipe (Suc i)
              (if truthy ing \<and> trim (the ing) \<noteq> []
               then ingredients
                    @ [\<lparr>ingredient = trim (the ing),
                        measure_s = (if truthy mea then trim (the mea) else [])\<rparr>]
               else ingredients))
      else ingredients)"
  by pat_completeness auto
termination
  by (relation "measure (\<lambda>(trim, recipe, i, ingredients). 21 - i)") auto

declare extractIngredients_loop.simps [simp del]

definition extractIngredients ::
  "(string \<Rightarrow> string) \<Rightarrow> (string \<rightharpoonup> string) \<Rightarrow> ingredient_entry list" where
  "extractIngredients trim recipe = extractIngredients_loop trim recipe 1 []"

text \<open>What the loop is for: the entry of index \<open>i\<close>, when that index has an ingredient.\<close>

definition ingredient_at ::
  "(string \<Rightarrow> string) \<Rightarrow> (string \<rightharpoonup> string) \<Rightarrow> nat \<Rightarrow> ingredient_entry option" where
  "ingredient_at trim recipe i =
     (case recipe (''strIngredient'' @ string_of_nat i) of
        None \<Rightarrow> None
      | Some ing \<Rightarrow>
          if ing = [] \<or> trim ing = [] then None
          else Some \<lparr>ingredient = trim ing,
                     measure_s =
                       (case recipe (''strMeasure'' @ string_of_nat i) of
                          None \<Rightarrow> []
                        | Some mea \<Rightarrow> if mea = [] then [] else trim mea)\<rparr>)"

section \<open>Runs of the tracker used below\<close>

text \<open>A response with status 200 whose body parsed to \<open>payload\<close>; one with status 500.\<close>

definition ok_response :: "'a \<Rightarrow> 'a fetch_outcome" where
  "ok_response payload = Inr \<lparr>status = 200, json = Inr payload\<rparr>"

definition server_error :: "nat fetch_outcome" where
  "server_error = Inr \<lparr>status = 500, json = Inl SyntaxError\<rparr>"

text \<open>Locator a is bound; before its retrieval comes back, locator b is bound.\<close>

definition rebound_in_flight :: "nat useFetch_state" where
  "rebound_in_flight = rerender (Some ''b'') (useFetch (Some ''a''))"

text \<open>Locator a is bound and its retrieval succeeds with payload 7.\<close>

definition succeeded_a :: "nat useFetch_state" where
  "succeeded_a = settle 0 (ok_response 7) (useFetch (Some ''a''))"

text \<open>Locator a is bound and its retrieval fails with status 500.\<close>

definition failed_a :: "nat useFetch_state" where
  "failed_a = settle 0 server_error (useFetch (Some ''a''))"

text \<open>A response with status \<open>sc\<close> whose body parsed to \<^verbatim>\<open>{ "meals": null }\<close>.\<close>

definition null_meals :: "nat \<Rightarrow> 'r meals_response fetch_outcome" where
  "null_meals sc = Inr \<lparr>status = sc, json = Inr \<lparr>meals = None\<rparr>\<rparr>"

section \<open>Runs of the favorites page used below\<close>

text \<open>A lookup that comes back with status 200 and one recipe; one with status 404.\<close>

definition meal :: "'r \<Rightarrow> 'r meals_response fetch_outcome" where
  "meal r = Inr \<lparr>status = 200, json = Inr \<lparr>meals = Some [r]\<rparr>\<rparr>"

definition not_found :: "string meals_response fetch_outcome" where
  "not_found = Inr \<lparr>status = 404, json = Inl SyntaxError\<rparr>"

text \<open>
  The page is shown with favorites 1 and 2; favorite 2 is removed while the first run is in
  flight; the second run, for favorite 1 alone, finishes.
\<close>

definition newer_run_done :: "string page" where
  "newer_run_done =
     settle_recipe 1 0 (meal ''one'') (favorites_changed [''1''] (FavoritesPage [''1'', ''2'']))"

text \<open>The page is shown with favorites 1 and 2, and the lookup of 1 has come back.\<close>

definition first_of_two_done :: "string page" where
  "first_of_two_done = settle_recipe 0 0 (meal ''one'') (FavoritesPage [''1'', ''2''])"

section \<open>Histories of the tracker\<close>

text \<open>
  What can happen to a mounted tracker after its first render: a render with a locator, the
  unmount, a retrieval coming back.
\<close>

datatype 'a event = Rerender "string option" | Unmount | Settle nat "'a fetch_outcome"

fun step :: "'a useFetch_state \<Rightarrow> 'a event \<Rightarrow> 'a useFetch_state" where
  "step st (Rerender u) = rerender u st"
| "step st Unmount = unmount st"
| "step st (Settle c outcome) = settle c outcome st"

definition run :: "string option \<Rightarrow> 'a event list \<Rightarrow> 'a useFetch_state" where
  "run u evs = foldl step (useFetch u) evs"

text \<open>
  Every retrieval in flight has been aborted, unless it is the one of the controller of the
  last effect of a mounted tracker.
\<close>

definition current_or_aborted :: "'a useFetch_state \<Rightarrow> bool" where
  "current_or_aborted st =
     list_all (\<lambda>(i, r). aborted r \<or> (mounted st \<and> controller st = Some i)) (inflight st)"

text \<open>Retrievals coming back one after the other: each with its controller and outcome.\<close>

definition settle_all ::
  "(nat \<times> 'a fetch_outcome) list \<Rightarrow> 'a useFetch_state \<Rightarrow> 'a useFetch_state" where
  "settle_all ss st = foldl (\<lambda>st (c, outcome). settle c outcome st) st ss"

text \<open>A mounted tracker that is loading has a retrieval in flight.\<close>

definition loading_in_flight :: "'a useFetch_state \<Rightarrow> bool" where
  "loading_in_flight st = (if mounted st \<and> loading st then inflight st \<noteq> [] else True)"

text \<open>While the sentinel is bound, the last effect left no controller.\<close>

definition sentinel_uncontrolled :: "'a useFetch_state \<Rightarrow> bool" where
  "sentinel_uncontrolled st = (if truthy (url st) then True else controller st = None)"

section \<open>The JSON instance round-trips\<close>

lemma hex_value_hex_digit: "d < 16 \<Longrightarrow> hex_value (hex_digit d) = Some d"
  by (auto simp: hex_value_def hex_digit_def Let_def)

lemma unicode_escape_low:
  assumes "(of_char c :: nat) < 32"
  shows "unicode_escape (CHR ''0'') (CHR ''0'')
           (hex_digit (of_char c div 16)) (hex_digit (of_char c mod 16)) = Some c"
proof -
  have z: "hex_value (CHR ''0'') = Some 0"
    by (simp add: hex_value_def)
  have hi: "hex_value (hex_digit (of_char c div 16)) = Some (of_char c div 16)"
    using assms by (intro hex_value_hex_digit) simp
  have lo: "hex_value (hex_digit (of_char c mod 16)) = Some (of_char c mod 16)"
    by (intro hex_value_hex_digit) simp
  show ?thesis
    by (simp add: unicode_escape_def z hi lo)
qed

text \<open>Inside a string literal, the scanner reads back each character from its quoted form.\<close>

lemma scan_quote_char:
  "scan InStr acc els (quote_char c @ rest) = scan InStr (c # acc) els rest"
proof -
  consider (short) "c \<in> {CHR 0x08, CHR 0x09, CHR 0x0A, CHR 0x0C, CHR 0x0D}"
    | (dq) "c = dquote"
    | (bs) "c = backslash"
    | (low) "c \<notin> {CHR 0x08, CHR 0x09, CHR 0x0A, CHR 0x0C, CHR 0x0D}" "c \<noteq> dquote"
        "c \<noteq> backslash" "(of_char c :: nat) < 32"
    | (plain) "c \<notin> {CHR 0x08, CHR 0x09, CHR 0x0A, CHR 0x0C, CHR 0x0D}" "c \<noteq> dquote"
        "c \<noteq> backslash" "\<not> (of_char c :: nat) < 32"
    by blast
  then show ?thesis
  proof cases
    case short
    then show ?thesis
      by (auto simp: quote_char_def unescape_def dquote_def backslash_def)
  next
    case dq
    then show ?thesis
      by (simp add: quote_char_def unescape_def dquote_def backslash_def)
  next
    case bs
    then show ?thesis
      by (simp add: quote_char_def unescape_def dquote_def backslash_def)
  next
    case low
    then show ?thesis
      using unicode_escape_low [of c]
      by (simp add: quote_char_def dquote_def backslash_def)
  next
    case plain
    then show ?thesis
      by (simp add: quote_char_def)
  qed
qed

lemma scan_quoted_chars:
  "scan InStr acc els (concat (map quote_char s) @ rest) = scan InStr (rev s @ acc) els rest"
  by (induction s arbitrary: acc) (simp_all add: scan_quote_char)

lemma scan_string_body:
  "scan InStr [] els (concat (map quote_char s) @ dquote # rest) = scan AfterElem [] (s # els) rest"
  by (simp add: scan_quoted_chars)

lemma not_ws_dquote: "\<not> is_ws dquote"
  by (simp add: is_ws_def dquote_def)

lemma scan_First_string:
  "scan First acc els (quote_string s @ rest) = scan AfterElem [] (s # els) rest"
  using scan_string_body [of els s rest]
  by (simp add: quote_string_def not_ws_dquote) (simp add: dquote_def)

lemma scan_Elem_string:
  "scan Elem acc els (quote_string s @ rest) = scan AfterElem [] (s # els) rest"
  using scan_string_body [of els s rest]
  by (simp add: quote_string_def not_ws_dquote)

lemma scan_tail:
  "scan AfterElem [] els (concat (map (\<lambda>x. CHR '','' # quote_string x) xs) @ '']'')
     = Inr (rev els @ xs)"
  by (induction xs arbitrary: els) (simp_all add: is_ws_def scan_Elem_string)

lemma join_commas_Cons:
  "join_commas (map quote_string (x # xs))
     = quote_string x @ concat (map (\<lambda>y. CHR '','' # quote_string y) xs)"
  by (induction xs arbitrary: x) simp_all

lemma JSON_roundtrip: "JSON_parse (JSON_stringify xs) = Inr xs"
proof (cases xs)
  case Nil
  then show ?thesis
    by (simp add: JSON_parse_def JSON_stringify_def is_ws_def)
next
  case (Cons x ys)
  have "scan First [] []
          (quote_string x @ concat (map (\<lambda>y. CHR '','' # quote_string y) ys) @ '']'')
          = Inr (x # ys)"
    by (simp add: scan_First_string scan_tail)
  then show ?thesis
    using Cons
    by (simp add: JSON_parse_def JSON_stringify_def is_ws_def join_commas_Cons
          del: map_eq_conv list.map)
qed

lemma JSON_stringify_nonempty: "JSON_stringify xs \<noteq> []"
  by (simp add: JSON_stringify_def)

section \<open>The persisted slot and the favorites\<close>

lemma setValue_storedValue:
  "storedValue (setValue stringify key captured val st)
     = (case val of Updater f \<Rightarrow> f captured | Direct v \<Rightarrow> v)"
  by (simp add: setValue_def Let_def setItem_def split: set_arg.splits)

lemma setValue_items:
  "\<not> write_throws (storage st) \<Longrightarrow>
   items (storage (setValue stringify key captured val st)) key
     = Some (stringify (storedValue (setValue stringify key captured val st)))"
  by (simp add: setValue_def Let_def setItem_def split: set_arg.splits)

lemma setValue_flags:
  "read_throws (storage (setValue stringify key captured val st)) = read_throws (storage st)"
  "write_throws (storage (setValue stringify key captured val st)) = write_throws (storage st)"
  by (simp_all add: setValue_def Let_def setItem_def split: set_arg.splits)

lemma useLocalStorage_reads_back:
  assumes "\<not> read_throws store" "items store key = Some txt" "txt \<noteq> []" "parse txt = Inr v"
  shows "storedValue (useLocalStorage parse key initialValue store) = v"
  using assms by (simp add: useLocalStorage_def getItem_def)

lemma setValue_reload:
  assumes "\<not> write_throws (storage st)" "\<not> read_throws (storage st)"
    and "\<And>v. parse (stringify v) = Inr v" "\<And>v. stringify v \<noteq> []"
  shows "storedValue (useLocalStorage parse key initialValue
            (storage (setValue stringify key captured val st)))
           = storedValue (setValue stringify key captured val st)"
proof (rule useLocalStorage_reads_back)
  show "\<not> read_throws (storage (setValue stringify key captured val st))"
    using assms(2) by (simp add: setValue_flags)
  show "items (storage (setValue stringify key captured val st)) key
          = Some (stringify (storedValue (setValue stringify key captured val st)))"
    using assms(1) by (rule setValue_items)
  show "stringify (storedValue (setValue stringify key captured val st)) \<noteq> []"
    by (rule assms(4))
  show "parse (stringify (storedValue (setValue stringify key captured val st)))
          = Inr (storedValue (setValue stringify key captured val st))"
    by (rule assms(3))
qed

lemma setValue_write_fails:
  assumes "write_throws (storage st)"
  shows "storage (setValue stringify key captured val st) = storage st
         \<and> console (setValue stringify key captured val st)
             = console st @ [ErrorSetting key QuotaExceededError]"
  using assms by (simp add: setValue_def Let_def setItem_def split: set_arg.splits)

lemma useLocalStorage_absent:
  "items store key = None \<Longrightarrow>
   storedValue (useLocalStorage parse key initialValue store) = initialValue"
  by (simp add: useLocalStorage_def getItem_def)

lemma useLocalStorage_unparseable:
  "items store key = Some txt \<Longrightarrow> parse txt = Inl e \<Longrightarrow>
   storedValue (useLocalStorage parse key initialValue store) = initialValue"
  by (simp add: useLocalStorage_def getItem_def)

text \<open>Both mutations compute from the favorites their render captured, whatever the state.\<close>

lemma addFavorite_favorites:
  "favorites (addFavorite stringify captured recipeId st) = spec_add recipeId captured"
  by (simp add: addFavorite_def favorites_def setValue_storedValue spec_add_def)

lemma removeFavorite_favorites:
  "favorites (removeFavorite stringify captured recipeId st) = spec_remove recipeId captured"
proof -
  have "filter (\<lambda>id. id \<noteq> recipeId) xs = spec_remove recipeId xs" for xs
    by (induction xs) (auto simp: spec_remove_def)
  then show ?thesis
    by (simp add: removeFavorite_def favorites_def setValue_storedValue)
qed

text \<open>
  C6, evaluated where it fails. A provider starts on an empty store; its render has no
  favorites. From that one render \<open>addFavorite\<close> is called with 42 and then with 7, as a
  handler that adds two recipes does. Each call applies its updater to the favorites the
  render captured, the empty sequence, and sets the state to the result: the favorites are
  7 alone, in memory and in the store, not 42, 7. Between two renders the mutations do not
  compose, although \<^verbatim>\<open>setValue\<close> accepts a function "so we have same API as useState".
  Called again from the render that follows the first call, the second call gives 42, 7.
\<close>

theorem adds_from_one_render_keep_only_the_last:
  "favorites (FavoritesProvider JSON_parse working_store) = []
   \<and> favorites (addFavorite JSON_stringify [] ''42'' (FavoritesProvider JSON_parse working_store))
       = [''42'']
   \<and> favorites (addFavorite JSON_stringify [] ''7''
        (addFavorite JSON_stringify [] ''42'' (FavoritesProvider JSON_parse working_store)))
       = [''7'']
   \<and> items (storage (addFavorite JSON_stringify [] ''7''
        (addFavorite JSON_stringify [] ''42'' (FavoritesProvider JSON_parse working_store))))
        favorites_key = Some (JSON_stringify [''7''])
   \<and> favorites (addFavorite JSON_stringify [''42''] ''7''
        (addFavorite JSON_stringify [] ''42'' (FavoritesProvider JSON_parse working_store)))
       = [''42'', ''7'']"
  by (simp add: FavoritesProvider_def useLocalStorage_def getItem_def working_store_def
        addFavorite_def setValue_def setItem_def favorites_def Let_def)

text \<open>
  C7. Persistence round-trips. When the store takes the write and gives the read, and the
  serializer and parser are inverse on the stored value (the text not empty), a fresh slot
  initialized from the same key holds the value \<open>setValue\<close> stored; so after \<open>addFavorite\<close> a
  fresh provider on the same store lists the id. This holds for a call from any render. The
  initializer falls back to the initial value when the key is absent and when the text does
  not parse.
\<close>

theorem persisted_value_survives_reload:
  assumes "\<not> write_throws (storage st)" and "\<not> read_throws (storage st)"
    and "\<And>v. parse (stringify v) = Inr v" and "\<And>v. stringify v \<noteq> []"
    and "\<And>v. parseF (stringifyF v) = Inr v" and "\<And>v. stringifyF v \<noteq> []"
    and "\<not> write_throws (storage fav)" and "\<not> read_throws (storage fav)"
  shows "storedValue (useLocalStorage parse key initialValue
            (storage (setValue stringify key captured val st)))
           = storedValue (setValue stringify key captured val st)
         \<and> favorites (FavoritesProvider parseF
                        (storage (addFavorite stringifyF capturedF recipeId fav)))
             = favorites (addFavorite stringifyF capturedF recipeId fav)
         \<and> recipeId \<in> set (favorites (FavoritesProvider parseF
                                (storage (addFavorite stringifyF capturedF recipeId fav))))
         \<and> (items store key = None \<longrightarrow>
              storedValue (useLocalStorage parse key initialValue store) = initialValue)
         \<and> (items store key = Some txt \<and> parse txt = Inl e \<longrightarrow>
              storedValue (useLocalStorage parse key initialValue store) = initialValue)"
proof -
  have fav: "favorites (FavoritesProvider parseF
                          (storage (addFavorite stringifyF capturedF recipeId fav)))
               = favorites (addFavorite stringifyF capturedF recipeId fav)"
    using setValue_reload [OF assms(7,8,5,6), of favorites_key "[]" capturedF]
    by (simp add: FavoritesProvider_def addFavorite_def favorites_def)
  have "recipeId \<in> set (favorites (addFavorite stringifyF capturedF recipeId fav))"
    by (simp add: addFavorite_favorites spec_add_def)
  then show ?thesis
    using setValue_reload [OF assms(1-4), of key initialValue captured val] fav
    by (simp add: useLocalStorage_absent useLocalStorage_unparseable)
qed

theorem persisted_value_survives_reload_witness:
  "favorites (FavoritesProvider JSON_parse
      (storage (addFavorite JSON_stringify [] ''42''
                  (FavoritesProvider JSON_parse working_store))))
     = [''42'']
   \<and> storedValue (useLocalStorage JSON_parse ''k'' []
        (storage (setValue JSON_stringify ''k'' [] (Direct [''a'', ''b''])
           (useLocalStorage JSON_parse ''k'' [] working_store)))) = [''a'', ''b'']
   \<and> storedValue (useLocalStorage JSON_parse ''k'' [''x''] working_store) = [''x'']
   \<and> storedValue (useLocalStorage JSON_parse ''k'' [''x''] corrupt_store) = [''x'']"
proof -
  let ?fav = "FavoritesProvider JSON_parse working_store"
  let ?slot = "useLocalStorage JSON_parse ''k'' [] working_store"
  have fav: "\<not> write_throws (storage ?fav)" "\<not> read_throws (storage ?fav)"
    by (simp_all add: FavoritesProvider_def useLocalStorage_def getItem_def working_store_def)
  have slot: "\<not> write_throws (storage ?slot)" "\<not> read_throws (storage ?slot)"
    by (simp_all add: useLocalStorage_def getItem_def working_store_def)
  have absent: "items working_store ''k'' = None"
    by (simp add: working_store_def)
  have corrupt: "items corrupt_store ''k'' = Some ''{oops''"
    "JSON_parse ''{oops'' = Inl SyntaxError"
    by (simp_all add: corrupt_store_def JSON_parse_def is_ws_def)
  show ?thesis
    using persisted_value_survives_reload
        [of ?slot JSON_parse JSON_stringify JSON_parse JSON_stringify ?fav "''k''" "[]" "[]"
          "Direct [''a'', ''b'']" "[]" "''42''" working_store "''{oops''" SyntaxError,
          OF slot JSON_roundtrip JSON_stringify_nonempty JSON_roundtrip JSON_stringify_nonempty
          fav]
      persisted_value_survives_reload
        [of ?slot JSON_parse JSON_stringify JSON_parse JSON_stringify ?fav "''k''" "[''x'']" "[]"
          "Direct [''a'', ''b'']" "[]" "''42''" working_store "''{oops''" SyntaxError,
          OF slot JSON_roundtrip JSON_stringify_nonempty JSON_roundtrip JSON_stringify_nonempty
          fav]
      persisted_value_survives_reload
        [of ?slot JSON_parse JSON_stringify JSON_parse JSON_stringify ?fav "''k''" "[''x'']" "[]"
          "Direct [''a'', ''b'']" "[]" "''42''" corrupt_store "''{oops''" SyntaxError,
          OF slot JSON_roundtrip JSON_stringify_nonempty JSON_roundtrip JSON_stringify_nonempty
          fav]
      absent corrupt
    by (simp add: addFavorite_favorites spec_add_def setValue_storedValue)
qed

text \<open>
  C8. When the store throws on write, \<open>setValue\<close> still updates the value in memory, so a
  favorite just added is a favorite in this session; the store is left as it was, and the
  failure goes to the console and nowhere else: \<open>setValue\<close> returns the slot. This holds for
  a call from any render.
\<close>

theorem failed_write_still_updates_memory:
  assumes "write_throws (storage st)" and "write_throws (storage fav)"
  shows "storedValue (setValue stringify key captured val st)
           = (case val of Updater f \<Rightarrow> f captured | Direct v \<Rightarrow> v)
         \<and> storage (setValue stringify key captured val st) = storage st
         \<and> console (setValue stringify key captured val st)
             = console st @ [ErrorSetting key QuotaExceededError]
         \<and> isFavorite recipeId (addFavorite stringifyF capturedF recipeId fav)
         \<and> storage (addFavorite stringifyF capturedF recipeId fav) = storage fav
         \<and> console (addFavorite stringifyF capturedF recipeId fav)
             = console fav @ [ErrorSetting favorites_key QuotaExceededError]"
proof -
  have "isFavorite recipeId (addFavorite stringifyF capturedF recipeId fav)"
    by (simp add: isFavorite_def addFavorite_favorites spec_add_def)
  then show ?thesis
    using setValue_write_fails [OF assms(1), of stringify key captured val]
      setValue_write_fails [OF assms(2), of stringifyF favorites_key capturedF]
    by (simp add: setValue_storedValue addFavorite_def)
qed

theorem failed_write_still_updates_memory_witness:
  "isFavorite ''42''
     (addFavorite JSON_stringify [] ''42'' (FavoritesProvider JSON_parse full_store))
   \<and> items (storage (addFavorite JSON_stringify [] ''42''
                       (FavoritesProvider JSON_parse full_store)))
        favorites_key = None
   \<and> console (addFavorite JSON_stringify [] ''42'' (FavoritesProvider JSON_parse full_store))
        = [ErrorSetting favorites_key QuotaExceededError]
   \<and> storedValue (setValue JSON_stringify ''k'' [] (Direct [''a''])
        (useLocalStorage JSON_parse ''k'' [] full_store)) = [''a'']"
proof -
  let ?fav = "FavoritesProvider JSON_parse full_store"
  let ?st = "useLocalStorage JSON_parse ''k'' [] full_store"
  have fav: "write_throws (storage ?fav)" "storage ?fav = full_store" "console ?fav = []"
    by (simp_all add: FavoritesProvider_def useLocalStorage_def getItem_def full_store_def)
  have st: "write_throws (storage ?st)"
    by (simp add: useLocalStorage_def getItem_def full_store_def)
  show ?thesis
    using failed_write_still_updates_memory
      [OF st fav(1), of JSON_stringify "''k''" "[]" "Direct [''a'']" "''42''" JSON_stringify "[]"]
      fav(2,3)
    by (simp add: full_store_def)
qed

section \<open>More on the favorites\<close>

text \<open>
  A mutation called from the latest render, the one whose favorites are the state's, is the
  mutation of the duplicate-free ordered sequence of the specification: \<open>addFavorite\<close> is
  \<open>spec_add\<close> (unchanged when the id is present, appended at the end otherwise),
  \<open>removeFavorite\<close> is \<open>spec_remove\<close> (the id deleted when present, unchanged when absent),
  both keep a duplicate-free sequence duplicate-free, and on a store that takes the write
  each leaves the serialized result under the key. Adding 42 and then, from the render that
  follows, 7 to no favorites gives 42, 7.
\<close>

theorem latest_render_ordered_sequence:
  assumes "captured = favorites st"
  shows "favorites (addFavorite stringify captured recipeId st) = spec_add recipeId (favorites st)
         \<and> favorites (removeFavorite stringify captured recipeId st)
             = spec_remove recipeId (favorites st)
         \<and> (distinct (favorites st) \<longrightarrow>
              distinct (favorites (addFavorite stringify captured recipeId st))
              \<and> distinct (favorites (removeFavorite stringify captured recipeId st)))
         \<and> (favorites st = [] \<longrightarrow>
              favorites (addFavorite stringify
                           (favorites (addFavorite stringify captured ''42'' st)) ''7''
                           (addFavorite stringify captured ''42'' st)) = [''42'', ''7''])
         \<and> (\<not> write_throws (storage st) \<longrightarrow>
              items (storage (addFavorite stringify captured recipeId st)) favorites_key
                = Some (stringify (favorites (addFavorite stringify captured recipeId st)))
              \<and> items (storage (removeFavorite stringify captured recipeId st)) favorites_key
                = Some (stringify (favorites (removeFavorite stringify captured recipeId st))))"
proof -
  have order: "favorites (addFavorite stringify
                            (favorites (addFavorite stringify captured ''42'' st)) ''7''
                            (addFavorite stringify captured ''42'' st)) = [''42'', ''7'']"
    if "favorites st = []"
    using that assms by (simp add: addFavorite_favorites spec_add_def)
  have keep: "distinct (spec_add recipeId xs) \<and> distinct (spec_remove recipeId xs)"
    if "distinct xs" for xs
    using that by (simp add: spec_add_def spec_remove_def distinct_removeAll)
  have persist: "items (storage (addFavorite stringify captured recipeId st)) favorites_key
                   = Some (stringify (favorites (addFavorite stringify captured recipeId st)))
                 \<and> items (storage (removeFavorite stringify captured recipeId st)) favorites_key
                   = Some (stringify (favorites (removeFavorite stringify captured recipeId st)))"
    if "\<not> write_throws (storage st)"
    using that setValue_items [of st stringify favorites_key captured]
    by (simp add: addFavorite_def removeFavorite_def favorites_def)
  show ?thesis
    using order keep [of "favorites st"] persist assms
    by (simp add: addFavorite_favorites removeFavorite_favorites)
qed

theorem latest_render_ordered_sequence_witness:
  "favorites (addFavorite JSON_stringify [''42''] ''7''
      (addFavorite JSON_stringify [] ''42'' (FavoritesProvider JSON_parse working_store)))
     = [''42'', ''7'']
   \<and> favorites (removeFavorite JSON_stringify [''42''] ''42''
        (addFavorite JSON_stringify [] ''42'' (FavoritesProvider JSON_parse working_store))) = []
   \<and> items (storage (addFavorite JSON_stringify [] ''42''
                       (FavoritesProvider JSON_parse working_store)))
        favorites_key = Some (JSON_stringify [''42''])"
proof -
  let ?st = "FavoritesProvider JSON_parse working_store"
  let ?one = "addFavorite JSON_stringify [] ''42'' ?st"
  have empty: "[] = favorites ?st" and writes: "\<not> write_throws (storage ?st)"
    by (simp_all add: FavoritesProvider_def useLocalStorage_def getItem_def working_store_def
          favorites_def)
  have one: "[''42''] = favorites ?one"
    by (simp add: addFavorite_favorites spec_add_def)
  show ?thesis
    using latest_render_ordered_sequence [OF empty, of JSON_stringify "''42''"]
      latest_render_ordered_sequence [OF one, of JSON_stringify "''42''"]
      empty [symmetric] writes one [symmetric]
    by (simp add: spec_remove_def spec_add_def)
qed

text \<open>
  With the platform's JSON on arrays of strings, and a store that takes the write and gives
  the read, a provider started on the store that \<open>addFavorite\<close> or \<open>removeFavorite\<close> left
  lists the favorites that call left in memory.
\<close>

theorem favorites_survive_reload_JSON:
  assumes "\<not> write_throws (storage st)" and "\<not> read_throws (storage st)"
  shows "favorites (FavoritesProvider JSON_parse
                      (storage (addFavorite JSON_stringify captured recipeId st)))
           = favorites (addFavorite JSON_stringify captured recipeId st)
         \<and> favorites (FavoritesProvider JSON_parse
                        (storage (removeFavorite JSON_stringify captured recipeId st)))
             = favorites (removeFavorite JSON_stringify captured recipeId st)"
  using setValue_reload
    [OF assms JSON_roundtrip JSON_stringify_nonempty, of favorites_key "[]" captured]
  by (simp add: FavoritesProvider_def addFavorite_def removeFavorite_def favorites_def)

theorem favorites_survive_reload_JSON_witness:
  "favorites (FavoritesProvider JSON_parse
      (storage (removeFavorite JSON_stringify [''42'', ''7''] ''42''
         (addFavorite JSON_stringify [''42''] ''7''
            (addFavorite JSON_stringify [] ''42''
               (FavoritesProvider JSON_parse working_store))))))
     = [''7'']"
proof -
  let ?st = "addFavorite JSON_stringify [''42''] ''7''
               (addFavorite JSON_stringify [] ''42''
                  (FavoritesProvider JSON_parse working_store))"
  have st: "\<not> write_throws (storage ?st)" "\<not> read_throws (storage ?st)"
    by (simp_all add: FavoritesProvider_def useLocalStorage_def getItem_def working_store_def
          addFavorite_def setValue_flags)
  show ?thesis
    using favorites_survive_reload_JSON [OF st, of "[''42'', ''7'']" "''42''"]
    by (simp add: removeFavorite_favorites spec_remove_def)
qed

text \<open>
  From the latest render, adding an id that was just added changes nothing, and so does
  removing an id that was just removed or an id that is absent; from any render, an id just
  added is a favorite and an id just removed is not.
\<close>

theorem favorites_idempotent:
  "favorites (addFavorite stringify (favorites (addFavorite stringify captured recipeId st))
                recipeId (addFavorite stringify captured recipeId st))
     = favorites (addFavorite stringify captured recipeId st)
   \<and> favorites (removeFavorite stringify
                  (favorites (removeFavorite stringify captured recipeId st))
                  recipeId (removeFavorite stringify captured recipeId st))
       = favorites (removeFavorite stringify captured recipeId st)
   \<and> isFavorite recipeId (addFavorite stringify captured recipeId st)
   \<and> \<not> isFavorite recipeId (removeFavorite stringify captured recipeId st)
   \<and> (isFavorite recipeId st
       \<or> favorites (removeFavorite stringify (favorites st) recipeId st) = favorites st)"
  by (simp add: addFavorite_favorites removeFavorite_favorites isFavorite_def spec_add_def
        spec_remove_def)

section \<open>The request-state tracker\<close>

lemma useFetch_effect_truthy:
  assumes "mounted st" and "u \<noteq> []"
  shows "useFetch_effect (Some u) st
           = st\<lparr>loading := True, error := None, controller := Some (issued st),
                inflight := (issued st, \<lparr>target = u, aborted = False\<rparr>) # inflight st,
                issued := Suc (issued st)\<rparr>"
  using assms by (simp add: useFetch_effect_def setError_def setLoading_def)

lemma useFetch_effect_falsy:
  "\<not> truthy u \<Longrightarrow> useFetch_effect u st = st\<lparr>controller := None\<rparr>"
  by (simp add: useFetch_effect_def truthy_def split: option.splits)

lemma useFetch_cleanup_states:
  "data (useFetch_cleanup st) = data st" "loading (useFetch_cleanup st) = loading st"
  "error (useFetch_cleanup st) = error st" "issued (useFetch_cleanup st) = issued st"
  "mounted (useFetch_cleanup st) = mounted st"
  "map fst (inflight (useFetch_cleanup st)) = map fst (inflight st)"
  by (auto simp: useFetch_cleanup_def split: option.splits)

text \<open>
  C1, evaluated where it fails. Locator a is bound and then locator b, before a's retrieval
  has come back. The tracker is loading, for b. Then a's retrieval comes back, whatever the
  network had for it: its signal was aborted, so the \<^verbatim>\<open>catch\<close> sets no error and no data, but
  the \<^verbatim>\<open>finally\<close> runs \<^verbatim>\<open>setLoading(false)\<close>. The tracker is no longer loading while b's
  retrieval is still in flight, and a consumer observes the idle outcome.
\<close>

theorem superseded_retrieval_stops_loading:
  "loading rebound_in_flight
   \<and> controller rebound_in_flight = Some 1
   \<and> map_of (inflight rebound_in_flight) 0 = Some \<lparr>target = ''a'', aborted = True\<rparr>
   \<and> \<not> loading (settle 0 outcome rebound_in_flight)
   \<and> inflight (settle 0 outcome rebound_in_flight) = [(1, \<lparr>target = ''b'', aborted = False\<rparr>)]
   \<and> data (settle 0 outcome rebound_in_flight) = None
   \<and> error (settle 0 outcome rebound_in_flight) = None
   \<and> observed (settle 0 outcome rebound_in_flight) = Idle"
  by (simp add: rebound_in_flight_def rerender_def useFetch_def useFetch_effect_def
        useFetch_cleanup_def setError_def setLoading_def settle_def fetchData_resume_def
        fetchData_try_def AbortError_def observed_def truthy_def)

text \<open>
  C2, as stated, fails: after a success with payload 7, binding locator b leaves the tracker
  loading with the payload 7 still in \<open>data\<close>, and when b's retrieval then fails the payload
  stands beside the error.
\<close>

theorem stale_payload_beside_pending_and_failed:
  "loading (rerender (Some ''b'') succeeded_a)
   \<and> data (rerender (Some ''b'') succeeded_a) = Some 7
   \<and> error (settle 1 server_error (rerender (Some ''b'') succeeded_a))
       = Some ''HTTP error! status: 500''
   \<and> data (settle 1 server_error (rerender (Some ''b'') succeeded_a)) = Some 7"
  by (simp add: succeeded_a_def ok_response_def server_error_def rerender_def useFetch_def
        useFetch_effect_def useFetch_cleanup_def setError_def setLoading_def setData_def
        settle_def fetchData_resume_def fetchData_try_def ok_def new_Error_def)

text \<open>
  C2, amended. Read in the order the pages test the three states (loading, then error, then
  data), the tracker shows one outcome, \<open>observed\<close>. Binding a new non-sentinel locator
  makes it pending: \<open>loading\<close> is set and any previous error is cleared; the previous payload
  stays in \<open>data\<close>. A tracker first bound to a non-sentinel locator is pending with no
  payload and no error.
\<close>

theorem pending_clears_error_keeps_payload:
  fixes st :: "'a useFetch_state"
  assumes "mounted st" and "truthy u" and "u \<noteq> url st"
  shows "loading (rerender u st) \<and> error (rerender u st) = None
         \<and> data (rerender u st) = data st \<and> observed (rerender u st) = Pending
         \<and> loading (useFetch u :: 'a useFetch_state)
         \<and> error (useFetch u :: 'a useFetch_state) = None
         \<and> data (useFetch u :: 'a useFetch_state) = None
         \<and> observed (useFetch u :: 'a useFetch_state) = Pending"
proof -
  from assms(2) obtain s where u: "u = Some s" "s \<noteq> []"
    by (auto simp: truthy_def split: option.splits)
  have "rerender u st = useFetch_effect (Some s) ((useFetch_cleanup st)\<lparr>url := u\<rparr>)"
    using assms(1,3) u by (simp add: rerender_def)
  then have later: "loading (rerender u st)" "error (rerender u st) = None"
    "data (rerender u st) = data st"
    using assms(1) u(2) by (simp_all add: useFetch_effect_truthy useFetch_cleanup_states)
  have first: "loading (useFetch u :: 'a useFetch_state)"
    "error (useFetch u :: 'a useFetch_state) = None"
    "data (useFetch u :: 'a useFetch_state) = None"
    using u by (simp_all add: useFetch_def useFetch_effect_truthy)
  show ?thesis
    by (simp add: observed_def later first)
qed

theorem pending_clears_error_keeps_payload_witness:
  "error failed_a = Some ''HTTP error! status: 500''
   \<and> error (rerender (Some ''b'') failed_a) = None
   \<and> loading (rerender (Some ''b'') failed_a)
   \<and> observed (rerender (Some ''b'') failed_a) = Pending
   \<and> data (rerender (Some ''b'') succeeded_a) = Some 7
   \<and> observed (useFetch (Some ''b'') :: nat useFetch_state) = Pending"
proof -
  have f: "mounted failed_a" "url failed_a = Some ''a''"
    "error failed_a = Some ''HTTP error! status: 500''"
    by (simp_all add: failed_a_def server_error_def useFetch_def useFetch_effect_def
          setError_def setLoading_def settle_def fetchData_resume_def fetchData_try_def ok_def
          new_Error_def)
  have s: "mounted succeeded_a" "url succeeded_a = Some ''a''" "data succeeded_a = Some 7"
    by (simp_all add: succeeded_a_def ok_response_def useFetch_def useFetch_effect_def
          setError_def setLoading_def setData_def settle_def fetchData_resume_def
          fetchData_try_def ok_def)
  have t: "truthy (Some ''b'')" "truthy (Some ''a'')"
    by (simp_all add: truthy_def)
  show ?thesis
    using pending_clears_error_keeps_payload [OF f(1) t(1), unfolded f(2)]
      pending_clears_error_keeps_payload [OF s(1) t(1), unfolded s(2)]
      f(3) s(3)
    by simp
qed

text \<open>
  C9. A retrieval that comes back with a success status and the parsed body
  \<^verbatim>\<open>{ "meals": null }\<close> resolves the tracker to succeeded with that payload: \<open>data\<close> holds it,
  \<open>error\<close> is null, \<open>loading\<close> is false, and the category page shows "no recipes found", not an
  error. This holds for a locator bound on a later render and for the first one. The category
  page binds the sentinel when it has no category name, and a by-category locator otherwise.
\<close>

theorem null_meals_is_success:
  fixes st :: "'r meals_response useFetch_state"
  assumes "mounted st" and "u \<noteq> []" and "Some u \<noteq> url st" and "200 \<le> sc" and "sc \<le> 299"
  shows "data (settle (issued st) (null_meals sc) (rerender (Some u) st)) = Some \<lparr>meals = None\<rparr>
         \<and> error (settle (issued st) (null_meals sc) (rerender (Some u) st)) = None
         \<and> \<not> loading (settle (issued st) (null_meals sc) (rerender (Some u) st))
         \<and> observed (settle (issued st) (null_meals sc) (rerender (Some u) st))
             = Succeeded \<lparr>meals = None\<rparr>
         \<and> CategoryPage (settle (issued st) (null_meals sc) (rerender (Some u) st)) = NoResults
         \<and> observed (settle 0 (null_meals sc) (useFetch (Some u)) :: 'r meals_response useFetch_state)
             = Succeeded \<lparr>meals = None\<rparr>
         \<and> CategoryPage (settle 0 (null_meals sc) (useFetch (Some u)) :: 'r meals_response useFetch_state)
             = NoResults
         \<and> truthy (CategoryPage_url enc categoryName) = truthy categoryName"
proof -
  let ?resp = "\<lparr>status = sc, json = Inr \<lparr>meals = (None :: 'r list option)\<rparr>\<rparr>"
  have ok: "ok ?resp"
    using assms(4,5) by (simp add: ok_def)
  let ?bound = "(useFetch_cleanup st)\<lparr>url := Some u\<rparr>"
  have m: "mounted ?bound"
    using assms(1) by (simp add: useFetch_cleanup_states)
  have r: "rerender (Some u) st = useFetch_effect (Some u) ?bound"
    using assms(1,3) by (auto simp: rerender_def)
  have later: "settle (issued st) (null_meals sc) (rerender (Some u) st)
                 = ?bound\<lparr>error := None, controller := Some (issued st),
                     inflight := filter (\<lambda>(i, r). i \<noteq> issued st) (inflight ?bound),
                     issued := Suc (issued st), data := Some \<lparr>meals = None\<rparr>, loading := False\<rparr>"
    using m ok assms(2)
    by (simp add: r null_meals_def useFetch_effect_def setError_def setLoading_def
          useFetch_cleanup_states settle_def fetchData_resume_def fetchData_try_def setData_def)
  have first: "(settle 0 (null_meals sc) (useFetch (Some u)) :: 'r meals_response useFetch_state)
                 = \<lparr>data = Some \<lparr>meals = None\<rparr>, loading = False, error = None, url = Some u,
                    mounted = True, controller = Some 0, inflight = [], issued = Suc 0\<rparr>"
    using ok assms(2)
    by (simp add: null_meals_def useFetch_def useFetch_effect_def setError_def setLoading_def
          settle_def fetchData_resume_def fetchData_try_def setData_def)
  have "truthy (CategoryPage_url enc categoryName) = truthy categoryName"
    by (simp add: CategoryPage_url_def truthy_def getRecipesByCategoryUrl_def BASE_URL_def)
  then show ?thesis
    unfolding later first by (simp add: observed_def CategoryPage_def truthy_def)
qed

theorem null_meals_is_success_witness:
  "observed (settle 1 (null_meals 200)
      (rerender (Some (getRecipesByCategoryUrl id ''Beef''))
         (settle 0 (Inr \<lparr>status = 200, json = Inr \<lparr>meals = Some [''r'']\<rparr>\<rparr>)
            (useFetch (Some (getRecipesByCategoryUrl id ''Seafood''))))))
     = Succeeded \<lparr>meals = None\<rparr>"
proof -
  let ?st = "settle 0 (Inr \<lparr>status = 200, json = Inr \<lparr>meals = Some [''r'']\<rparr>\<rparr>)
               (useFetch (Some (getRecipesByCategoryUrl id ''Seafood'')))"
  have st: "mounted ?st" "issued ?st = 1"
    "url ?st = Some (getRecipesByCategoryUrl id ''Seafood'')"
    by (simp_all add: useFetch_def useFetch_effect_def setError_def setLoading_def setData_def
          settle_def fetchData_resume_def fetchData_try_def ok_def getRecipesByCategoryUrl_def
          BASE_URL_def)
  have u: "getRecipesByCategoryUrl id ''Beef'' \<noteq> []"
    "Some (getRecipesByCategoryUrl id ''Beef'') \<noteq> url ?st"
    unfolding st(3) by (simp_all add: getRecipesByCategoryUrl_def BASE_URL_def)
  show ?thesis
    using null_meals_is_success [OF st(1) u, of 200] st(2)
    by simp
qed

section \<open>Superseded retrievals\<close>

lemma cleanup_aborts_current:
  assumes "current_or_aborted st"
  shows "list_all (\<lambda>(i, r). aborted r) (inflight (useFetch_cleanup st))"
proof (cases "controller st")
  case None
  then show ?thesis
    using assms by (auto simp: current_or_aborted_def useFetch_cleanup_def list_all_iff)
next
  case (Some c)
  then show ?thesis
    using assms
    by (auto simp: current_or_aborted_def useFetch_cleanup_def list_all_iff split: if_splits)
qed

lemma effect_keeps_invariant:
  assumes "list_all (\<lambda>(i, r). aborted r) (inflight st)" and "mounted st"
  shows "current_or_aborted (useFetch_effect u st)"
  using assms
  by (auto simp: current_or_aborted_def useFetch_effect_def setError_def setLoading_def
        list_all_iff split: option.splits)

lemma rerender_keeps_invariant:
  assumes "current_or_aborted st"
  shows "current_or_aborted (rerender u st)"
proof (cases "\<not> mounted st \<or> u = url st")
  case True
  then show ?thesis
    using assms by (auto simp: rerender_def)
next
  case False
  have "list_all (\<lambda>(i, r). aborted r) (inflight ((useFetch_cleanup st)\<lparr>url := u\<rparr>))"
    using cleanup_aborts_current [OF assms] by simp
  moreover have "mounted ((useFetch_cleanup st)\<lparr>url := u\<rparr>)"
    using False by (simp add: useFetch_cleanup_states)
  ultimately
  have "current_or_aborted (useFetch_effect u ((useFetch_cleanup st)\<lparr>url := u\<rparr>))"
    by (rule effect_keeps_invariant)
  then show ?thesis
    using False by (simp add: rerender_def)
qed

lemma unmount_keeps_invariant:
  assumes "current_or_aborted st"
  shows "current_or_aborted (unmount st)"
  using cleanup_aborts_current [OF assms] assms
  by (auto simp: unmount_def current_or_aborted_def list_all_iff)

lemma resume_fields:
  "inflight (fetchData_resume outcome st) = inflight st"
  "controller (fetchData_resume outcome st) = controller st"
  "mounted (fetchData_resume outcome st) = mounted st"
  by (simp_all add: fetchData_resume_def setLoading_def setData_def setError_def
        split: sum.splits)

lemma settle_keeps_invariant:
  assumes "current_or_aborted st"
  shows "current_or_aborted (settle c outcome st)"
  using assms
  by (auto simp: settle_def current_or_aborted_def resume_fields list_all_iff
        split: option.splits)

lemma run_invariant: "current_or_aborted (run u evs)"
proof -
  have start: "current_or_aborted (useFetch u :: 'a useFetch_state)"
    by (auto simp: current_or_aborted_def useFetch_def useFetch_effect_def setError_def
          setLoading_def split: option.splits)
  have "current_or_aborted (foldl step st evs)" if "current_or_aborted st"
    for st :: "'a useFetch_state"
    using that
  proof (induction evs arbitrary: st)
    case Nil
    then show ?case by simp
  next
    case (Cons e evs)
    have "current_or_aborted (step st e)"
      using Cons.prems
      by (cases e)
         (simp_all add: rerender_keeps_invariant unmount_keeps_invariant settle_keeps_invariant)
    then show ?case
      using Cons.IH by simp
  qed
  then show ?thesis
    using start by (simp add: run_def)
qed

lemma settle_aborted:
  assumes "map_of (inflight st) c = Some r" and "aborted r"
  shows "data (settle c outcome st) = data st" and "error (settle c outcome st) = error st"
  using assms
  by (simp_all add: settle_def fetchData_resume_def fetchData_try_def AbortError_def
        setLoading_def)

text \<open>
  In every history of the tracker, a retrieval that is not the one of the current controller,
  because a later locator or the unmount superseded it, changes neither \<open>data\<close> nor \<open>error\<close>
  when it comes back, whatever the network had for it: a superseded retrieval never makes the
  tracker succeeded or failed.
\<close>

theorem superseded_never_sets_data_or_error:
  assumes "controller (run u evs) \<noteq> Some c \<or> \<not> mounted (run u evs)"
  shows "data (settle c outcome (run u evs)) = data (run u evs)
         \<and> error (settle c outcome (run u evs)) = error (run u evs)"
proof (cases "map_of (inflight (run u evs)) c")
  case None
  then show ?thesis
    by (simp add: settle_def)
next
  case (Some r)
  then have "(c, r) \<in> set (inflight (run u evs))"
    by (rule map_of_SomeD)
  then have "aborted r \<or> (mounted (run u evs) \<and> controller (run u evs) = Some c)"
    using run_invariant [of u evs] by (auto simp: current_or_aborted_def list_all_iff)
  then have "aborted r"
    using assms by blast
  then show ?thesis
    using settle_aborted [OF Some] by simp
qed

theorem superseded_never_sets_data_or_error_witness:
  "controller (run (Some ''a'') [Rerender (Some ''b'')] :: nat useFetch_state) = Some 1
   \<and> data (settle 0 (ok_response 7) (run (Some ''a'') [Rerender (Some ''b'')])
             :: nat useFetch_state) = None
   \<and> error (settle 0 server_error (run (Some ''a'') [Rerender (Some ''b'')])) = None"
proof -
  let ?st = "run (Some ''a'') [Rerender (Some ''b'')] :: nat useFetch_state"
  have st: "controller ?st = Some 1" "data ?st = None" "error ?st = None"
    by (simp_all add: run_def rerender_def useFetch_def useFetch_effect_def
          useFetch_cleanup_def setError_def setLoading_def)
  have "controller ?st \<noteq> Some 0 \<or> \<not> mounted ?st"
    using st(1) by simp
  from superseded_never_sets_data_or_error [OF this, of "ok_response 7"]
    superseded_never_sets_data_or_error [OF this, of server_error]
  show ?thesis
    using st by simp
qed

text \<open>
  A retrieval that is current (not aborted, the tracker mounted) and fails, by a rejected
  \<^verbatim>\<open>fetch\<close>, a status outside 200 to 299 or a body that does not parse, makes the tracker
  failed: \<open>error\<close> holds the cause's message, or the fallback text when the message is
  empty, so it is never empty; \<open>loading\<close> is false, and \<open>data\<close> is what it was.
\<close>

theorem current_failure_is_failed:
  assumes "mounted st" and "map_of (inflight st) c = Some r" and "\<not> aborted r"
    and "fetchData_try outcome = Inl err" and "is_Error err" and "name err \<noteq> ''AbortError''"
  shows "error (settle c outcome st)
           = Some (if message err \<noteq> [] then message err else ''Failed to fetch data'')
         \<and> \<not> loading (settle c outcome st)
         \<and> data (settle c outcome st) = data st
         \<and> observed (settle c outcome st)
             = Failed (if message err \<noteq> [] then message err else ''Failed to fetch data'')"
  using assms
  by (simp add: settle_def fetchData_resume_def setError_def setLoading_def observed_def
        truthy_def)

theorem current_failure_is_failed_witness:
  "observed (settle 0 server_error (useFetch (Some ''a''))) = Failed ''HTTP error! status: 500''"
proof -
  let ?st = "useFetch (Some ''a'') :: nat useFetch_state"
  have st: "mounted ?st" "map_of (inflight ?st) 0 = Some \<lparr>target = ''a'', aborted = False\<rparr>"
    by (simp_all add: useFetch_def useFetch_effect_def setError_def setLoading_def)
  have thrown: "fetchData_try server_error = Inl (new_Error ''HTTP error! status: 500'')"
    by (simp add: fetchData_try_def server_error_def ok_def)
  show ?thesis
    using current_failure_is_failed [OF st _ thrown]
    by (simp add: new_Error_def)
qed

section \<open>Binding the sentinel\<close>

lemma settle_fields:
  "mounted (settle c outcome st) = mounted st" "issued (settle c outcome st) = issued st"
  "url (settle c outcome st) = url st" "controller (settle c outcome st) = controller st"
  by (simp_all add: settle_def fetchData_resume_def setLoading_def setData_def setError_def
        split: option.splits sum.splits)

lemma settle_inflight:
  "inflight (settle c outcome st) = filter (\<lambda>(i, r). i \<noteq> c) (inflight st)"
proof (cases "map_of (inflight st) c")
  case None
  then have "c \<notin> fst ` set (inflight st)"
    by (simp add: map_of_eq_None_iff)
  then have "filter (\<lambda>(i, r). i \<noteq> c) (inflight st) = inflight st"
    by (intro filter_True) force
  then show ?thesis
    using None by (simp add: settle_def)
next
  case (Some r)
  then show ?thesis
    by (simp add: settle_def resume_fields)
qed

lemma settle_found_stops_loading:
  assumes "map_of (inflight st) c = Some r" and "mounted st"
  shows "\<not> loading (settle c outcome st)"
  using assms
  by (simp add: settle_def fetchData_resume_def setLoading_def setData_def setError_def
        split: sum.splits)

lemma settle_keeps_loading_in_flight:
  assumes "loading_in_flight st"
  shows "loading_in_flight (settle c outcome st)"
proof (cases "map_of (inflight st) c")
  case None
  then show ?thesis
    using assms by (simp add: settle_def)
next
  case (Some r)
  show ?thesis
  proof (cases "mounted st")
    case True
    then show ?thesis
      using settle_found_stops_loading [OF Some True] by (simp add: loading_in_flight_def)
  next
    case False
    then show ?thesis
      by (simp add: loading_in_flight_def settle_fields)
  qed
qed

lemma rerender_keeps_loading_in_flight:
  assumes "loading_in_flight st"
  shows "loading_in_flight (rerender u st)"
  using assms
  by (auto simp: loading_in_flight_def rerender_def useFetch_effect_def useFetch_cleanup_def
        setError_def setLoading_def split: option.splits if_splits)

lemma run_loading_in_flight: "loading_in_flight (run u evs)"
proof -
  have start: "loading_in_flight (useFetch u :: 'a useFetch_state)"
    by (auto simp: loading_in_flight_def useFetch_def useFetch_effect_def setError_def
          setLoading_def split: option.splits)
  have "loading_in_flight (foldl step st evs)" if "loading_in_flight st"
    for st :: "'a useFetch_state"
    using that
  proof (induction evs arbitrary: st)
    case Nil
    then show ?case by simp
  next
    case (Cons e evs)
    have "loading_in_flight (step st e)"
    proof (cases e)
      case (Rerender v)
      then show ?thesis
        using Cons.prems by (simp add: rerender_keeps_loading_in_flight)
    next
      case Unmount
      then show ?thesis
        by (simp add: loading_in_flight_def unmount_def)
    next
      case (Settle c outcome)
      then show ?thesis
        using Cons.prems by (simp add: settle_keeps_loading_in_flight)
    qed
    then show ?case
      using Cons.IH by simp
  qed
  then show ?thesis
    using start by (simp add: run_def)
qed

lemma run_sentinel_uncontrolled: "sentinel_uncontrolled (run u evs)"
proof -
  have start: "sentinel_uncontrolled (useFetch u :: 'a useFetch_state)"
    by (auto simp: sentinel_uncontrolled_def useFetch_def useFetch_effect_def setError_def
          setLoading_def truthy_def split: option.splits)
  have "sentinel_uncontrolled (foldl step st evs)" if "sentinel_uncontrolled st"
    for st :: "'a useFetch_state"
    using that
  proof (induction evs arbitrary: st)
    case Nil
    then show ?case by simp
  next
    case (Cons e evs)
    have "sentinel_uncontrolled (step st e)"
    proof (cases e)
      case (Rerender v)
      then show ?thesis
        using Cons.prems
        by (auto simp: sentinel_uncontrolled_def rerender_def useFetch_effect_def
              useFetch_cleanup_def setError_def setLoading_def truthy_def
              split: option.splits if_splits)
    next
      case Unmount
      then show ?thesis
        using Cons.prems
        by (auto simp: sentinel_uncontrolled_def unmount_def useFetch_cleanup_def
              split: option.splits if_splits)
    next
      case (Settle c outcome)
      then show ?thesis
        using Cons.prems by (simp add: sentinel_uncontrolled_def settle_fields)
    qed
    then show ?case
      using Cons.IH by simp
  qed
  then show ?thesis
    using start by (simp add: run_def)
qed

text \<open>Binding the sentinel in any history leaves every retrieval in flight aborted.\<close>

lemma sentinel_bound:
  assumes "\<not> truthy s" and "mounted (run u evs)"
  shows "list_all (\<lambda>(i, r). aborted r) (inflight (rerender s (run u evs)))"
    and "data (rerender s (run u evs)) = data (run u evs)"
    and "error (rerender s (run u evs)) = error (run u evs)"
    and "issued (rerender s (run u evs)) = issued (run u evs)"
    and "mounted (rerender s (run u evs))"
    and "map (\<lambda>(i, r). (i, target r)) (inflight (rerender s (run u evs)))
           = map (\<lambda>(i, r). (i, target r)) (inflight (run u evs))"
    and "loading_in_flight (rerender s (run u evs))"
proof -
  let ?st = "run u evs"
  show "list_all (\<lambda>(i, r). aborted r) (inflight (rerender s ?st))"
  proof (cases "s = url ?st")
    case True
    then have "controller ?st = None"
      using run_sentinel_uncontrolled [of u evs] assms(1)
      by (simp add: sentinel_uncontrolled_def)
    then show ?thesis
      using run_invariant [of u evs] True
      by (auto simp: rerender_def current_or_aborted_def list_all_iff)
  next
    case False
    then show ?thesis
      using cleanup_aborts_current [OF run_invariant [of u evs]] assms
      by (simp add: rerender_def useFetch_effect_falsy)
  qed
  show "data (rerender s ?st) = data ?st" "error (rerender s ?st) = error ?st"
    "issued (rerender s ?st) = issued ?st" "mounted (rerender s ?st)"
    using assms by (simp_all add: rerender_def useFetch_effect_falsy useFetch_cleanup_states)
  show "map (\<lambda>(i, r). (i, target r)) (inflight (rerender s ?st))
          = map (\<lambda>(i, r). (i, target r)) (inflight ?st)"
    using assms
    by (auto simp: rerender_def useFetch_effect_falsy useFetch_cleanup_def
          split: option.splits)
  show "loading_in_flight (rerender s ?st)"
    using run_loading_in_flight [of u evs] by (rule rerender_keeps_loading_in_flight)
qed

text \<open>Aborted retrievals coming back change neither \<open>data\<close> nor \<open>error\<close>.\<close>

lemma settle_all_aborted:
  assumes "list_all (\<lambda>(i, r). aborted r) (inflight st)"
  shows "data (settle_all ss st) = data st \<and> error (settle_all ss st) = error st
         \<and> issued (settle_all ss st) = issued st \<and> mounted (settle_all ss st) = mounted st"
  using assms
proof (induction ss arbitrary: st)
  case Nil
  then show ?case by (simp add: settle_all_def)
next
  case (Cons p ss)
  obtain c outcome where p: "p = (c, outcome)"
    by (cases p)
  have one: "data (settle c outcome st) = data st \<and> error (settle c outcome st) = error st"
  proof (cases "map_of (inflight st) c")
    case None
    then show ?thesis by (simp add: settle_def)
  next
    case (Some r)
    then have "(c, r) \<in> set (inflight st)"
      by (rule map_of_SomeD)
    then have "aborted r"
      using Cons.prems by (auto simp: list_all_iff)
    then show ?thesis
      using settle_aborted [OF Some] by simp
  qed
  have "list_all (\<lambda>(i, r). aborted r) (inflight (settle c outcome st))"
    using Cons.prems by (auto simp: settle_inflight list_all_iff)
  from Cons.IH [OF this] show ?case
    using one by (simp add: settle_all_def p settle_fields)
qed

lemma settle_all_loading_in_flight:
  "loading_in_flight st \<Longrightarrow> loading_in_flight (settle_all ss st)"
proof (induction ss arbitrary: st)
  case Nil
  then show ?case by (simp add: settle_all_def)
next
  case (Cons p ss)
  obtain c outcome where p: "p = (c, outcome)"
    by (cases p)
  have "loading_in_flight (settle c outcome st)"
    using Cons.prems by (rule settle_keeps_loading_in_flight)
  from Cons.IH [OF this] show ?case
    by (simp add: settle_all_def p)
qed

text \<open>Once every retrieval in flight has come back, none is in flight.\<close>

lemma settle_all_drains:
  "fst ` set (inflight st) \<subseteq> fst ` set ss \<Longrightarrow> inflight (settle_all ss st) = []"
proof (induction ss arbitrary: st)
  case Nil
  then show ?case by (simp add: settle_all_def)
next
  case (Cons p ss)
  obtain c outcome where p: "p = (c, outcome)"
    by (cases p)
  have "fst ` set (inflight (settle c outcome st)) \<subseteq> fst ` set ss"
    using Cons.prems by (auto simp: settle_inflight p)
  from Cons.IH [OF this] show ?case
    by (simp add: settle_all_def p)
qed

text \<open>
  C3, as stated, fails: after a success with payload 7, binding the sentinel leaves the
  payload in \<open>data\<close>; the tracker is not idle, it still shows the success. After a failure it
  still shows the failure.
\<close>

theorem sentinel_after_success_not_idle:
  "data (rerender None succeeded_a) = Some 7
   \<and> observed (rerender None succeeded_a) = Succeeded 7
   \<and> observed (rerender None succeeded_a) \<noteq> Idle
   \<and> error (rerender None failed_a) = Some ''HTTP error! status: 500''
   \<and> observed (rerender None failed_a) \<noteq> Idle"
  by (simp add: succeeded_a_def failed_a_def ok_response_def server_error_def rerender_def
        useFetch_def useFetch_effect_def useFetch_cleanup_def setError_def setLoading_def
        setData_def settle_def fetchData_resume_def fetchData_try_def ok_def new_Error_def
        observed_def truthy_def)

text \<open>
  C3, amended. In every history of a mounted tracker, binding the sentinel locator (a null or
  an empty URL) issues no retrieval and leaves the retrievals in flight, all of them,
  aborted. Neither the binding nor those retrievals coming back, in any order and whatever
  the network had for them, change \<open>data\<close> or \<open>error\<close>. Each of them that comes back sets
  \<open>loading\<close> to false, and once all of them have come back nothing is in flight and the
  tracker is not loading: it is idle when it held no payload and no error before the
  binding, and it shows the earlier failure or success otherwise. A tracker first bound to
  the sentinel is idle: no payload, no error, not loading, nothing issued.
\<close>

theorem sentinel_issues_nothing_keeps_payload:
  fixes evs :: "'a event list"
  assumes "\<not> truthy s" and "mounted (run u evs)"
  shows "issued (rerender s (run u evs)) = issued (run u evs)
         \<and> map (\<lambda>(i, r). (i, target r)) (inflight (rerender s (run u evs)))
             = map (\<lambda>(i, r). (i, target r)) (inflight (run u evs))
         \<and> list_all (\<lambda>(i, r). aborted r) (inflight (rerender s (run u evs)))
         \<and> data (settle_all ss (rerender s (run u evs))) = data (run u evs)
         \<and> error (settle_all ss (rerender s (run u evs))) = error (run u evs)
         \<and> issued (settle_all ss (rerender s (run u evs))) = issued (run u evs)
         \<and> (map_of (inflight (rerender s (run u evs))) c = Some r \<longrightarrow>
              \<not> loading (settle c outcome (rerender s (run u evs))))
         \<and> (fst ` set (inflight (rerender s (run u evs))) \<subseteq> fst ` set ss \<longrightarrow>
              inflight (settle_all ss (rerender s (run u evs))) = []
              \<and> \<not> loading (settle_all ss (rerender s (run u evs)))
              \<and> observed (settle_all ss (rerender s (run u evs)))
                  = (if truthy (error (run u evs)) then Failed (the (error (run u evs)))
                     else case data (run u evs) of
                            None \<Rightarrow> Idle
                          | Some payload \<Rightarrow> Succeeded payload))
         \<and> settle_all ss (useFetch s :: 'a useFetch_state)
             = \<lparr>data = None, loading = False, error = None, url = s, mounted = True,
                controller = None, inflight = [], issued = 0\<rparr>
         \<and> observed (settle_all ss (useFetch s :: 'a useFetch_state)) = Idle"
proof -
  let ?st = "run u evs"
  let ?b = "rerender s ?st"
  let ?f = "settle_all ss ?b"
  note b = sentinel_bound [OF assms]
  have kept: "data ?f = data ?st" "error ?f = error ?st" "issued ?f = issued ?st" "mounted ?f"
    using settle_all_aborted [OF b(1), of ss] b(2-5) by simp_all
  have one: "\<not> loading (settle c outcome ?b)" if "map_of (inflight ?b) c = Some r"
    using settle_found_stops_loading [OF that b(5)] .
  have drained: "inflight ?f = [] \<and> \<not> loading ?f
                 \<and> observed ?f
                     = (if truthy (error ?st) then Failed (the (error ?st))
                        else case data ?st of None \<Rightarrow> Idle | Some payload \<Rightarrow> Succeeded payload)"
    if "fst ` set (inflight ?b) \<subseteq> fst ` set ss"
  proof -
    have empty: "inflight ?f = []"
      using that by (rule settle_all_drains)
    have "loading_in_flight ?f"
      using b(7) by (rule settle_all_loading_in_flight)
    then have "\<not> loading ?f"
      using empty kept(4) by (auto simp: loading_in_flight_def split: if_splits)
    then show ?thesis
      using empty kept(1,2) by (simp add: observed_def)
  qed
  have first: "(useFetch s :: 'a useFetch_state)
                 = \<lparr>data = None, loading = False, error = None, url = s, mounted = True,
                    controller = None, inflight = [], issued = 0\<rparr>"
    using assms(1) by (simp add: useFetch_def useFetch_effect_falsy)
  have idle: "settle_all ss x = x" if "inflight x = []" for x :: "'a useFetch_state"
    using that by (induction ss) (simp_all add: settle_all_def settle_def)
  have alone: "settle_all ss (useFetch s :: 'a useFetch_state)
                 = \<lparr>data = None, loading = False, error = None, url = s, mounted = True,
                    controller = None, inflight = [], issued = 0\<rparr>"
    unfolding first by (rule idle) simp
  have "observed (settle_all ss (useFetch s :: 'a useFetch_state)) = Idle"
    unfolding alone by (simp add: observed_def truthy_def)
  then show ?thesis
    using b(4,6,1) kept(1-3) one drained alone by blast
qed

theorem sentinel_issues_nothing_keeps_payload_witness:
  "observed (rerender None (run (Some ''a'') []) :: nat useFetch_state) = Pending
   \<and> inflight (rerender None (run (Some ''a'') []) :: nat useFetch_state)
       = [(0, \<lparr>target = ''a'', aborted = True\<rparr>)]
   \<and> observed (settle_all [(0, ok_response (7::nat))] (rerender None (run (Some ''a'') [])))
       = Idle
   \<and> data (settle_all [(0, ok_response (7::nat))] (rerender None (run (Some ''a'') [])))
       = None
   \<and> observed (settle_all []
                  (rerender None (run (Some ''a'') [Settle 0 (ok_response (7::nat))])))
       = Succeeded 7
   \<and> observed (settle_all [(0, server_error)] (useFetch (Some '''') :: nat useFetch_state)) = Idle"
proof -
  let ?pending = "run (Some ''a'') [] :: nat useFetch_state"
  let ?done = "run (Some ''a'') [Settle 0 (ok_response 7)] :: nat useFetch_state"
  have s: "\<not> truthy None" "\<not> truthy (Some '''')"
    by (simp_all add: truthy_def)
  have p: "mounted ?pending" "data ?pending = None" "error ?pending = None"
    "inflight (rerender None ?pending) = [(0, \<lparr>target = ''a'', aborted = True\<rparr>)]"
    "loading (rerender None ?pending)"
    by (simp_all add: run_def rerender_def useFetch_def useFetch_effect_def
          useFetch_cleanup_def setError_def setLoading_def)
  have d: "mounted ?done" "data ?done = Some 7" "error ?done = None"
    "inflight (rerender None ?done) = []"
    by (simp_all add: run_def rerender_def useFetch_def useFetch_effect_def
          useFetch_cleanup_def setError_def setLoading_def setData_def settle_def
          fetchData_resume_def fetchData_try_def ok_response_def ok_def)
  have came_back: "observed (settle_all [(0, ok_response 7)] (rerender None ?pending)) = Idle"
    "data (settle_all [(0, ok_response 7)] (rerender None ?pending)) = None"
    using sentinel_issues_nothing_keeps_payload
        [OF s(1) p(1), of "[(0, ok_response 7)]" 0 "\<lparr>target = ''a'', aborted = True\<rparr>"
          "ok_response 7"]
      p(2,3,4)
    by (simp_all add: truthy_def)
  have kept: "observed (settle_all [] (rerender None ?done)) = Succeeded 7"
    using sentinel_issues_nothing_keeps_payload
        [OF s(1) d(1), of "[]" 0 "\<lparr>target = ''a'', aborted = True\<rparr>" "ok_response 7"]
      d(2,3,4)
    by (simp add: truthy_def)
  have first: "observed (settle_all [(0, server_error)] (useFetch (Some '''') :: nat useFetch_state))
                 = Idle"
    using sentinel_issues_nothing_keeps_payload
        [OF s(2) p(1), of "[(0, server_error)]" 0 "\<lparr>target = ''a'', aborted = True\<rparr>"
          server_error]
    by (simp add: observed_def truthy_def)
  have pending: "observed (rerender None ?pending) = Pending"
    using p(5) by (simp add: observed_def)
  show ?thesis
    using came_back kept first p(4) pending by simp
qed

section \<open>The favorites page\<close>

lemma map_of_drop_batch: "map_of (batches (drop_batch b st)) b = None"
  by (simp add: drop_batch_def map_of_eq_None_iff image_iff split: prod.splits)

lemma drop_batch_states:
  "favoriteRecipes (drop_batch b st) = favoriteRecipes st"
  "page_loading (drop_batch b st) = page_loading st"
  "page_error (drop_batch b st) = page_error st"
  "page_favorites (drop_batch b st) = page_favorites st"
  by (simp_all add: drop_batch_def)

text \<open>A pending retrieval of a run in flight that rejects: the run takes the \<^verbatim>\<open>catch\<close>.\<close>

lemma settle_recipe_rejected:
  assumes "map_of (batches st) b = Some bt" and "i < length (ids bt)"
    and "i < length (slots bt)" and "slots bt ! i = None"
    and "fetchPromise (ids bt ! i) outcome = Inl err"
  shows "settle_recipe b i outcome st = batch_rejected err (drop_batch b st)"
  using assms by (simp add: settle_recipe_def)


lemma batch_rejected_states:
  "page_error (batch_rejected err st) = Some (catch_message err)"
  "\<not> page_loading (batch_rejected err st)"
  "favoriteRecipes (batch_rejected err st) = favoriteRecipes st"
  "batches (batch_rejected err st) = batches st"
  "page_favorites (batch_rejected err st) = page_favorites st"
  by (simp_all add: batch_rejected_def)

lemma render_error:
  assumes "\<not> page_loading st" and "page_error st = Some msg" and "msg \<noteq> []"
  shows "FavoritesPage_render st = ErrorMessage msg" and "cards (FavoritesPage_render st) = []"
  using assms by (simp_all add: FavoritesPage_render_def truthy_def cards_def)

lemma fetchPromise_null_meals:
  assumes "200 \<le> sc" and "sc \<le> 299"
  shows "fetchPromise recipeId (null_meals sc) = Inl null_meals_TypeError"
  using assms by (simp add: fetchPromise_def null_meals_def ok_def)




text \<open>
  C5, as stated, fails. Favorites 1 and 2 are being hydrated; favorite 2 is removed, and the
  run for favorite 1 alone starts and finishes: the page holds the one recipe. Then the
  retrievals of the first run come back, and the page holds two recipes, the removed
  favorite's among them; had the second of them failed, the page would hold its error.
\<close>

theorem superseded_batch_overwrites_recipes:
  "page_favorites newer_run_done = [''1'']
   \<and> favoriteRecipes newer_run_done = [''one'']
   \<and> page_error newer_run_done = None
   \<and> favoriteRecipes
        (settle_recipe 0 1 (meal ''two'') (settle_recipe 0 0 (meal ''one'') newer_run_done))
       = [''one'', ''two'']
   \<and> page_error (settle_recipe 0 1 not_found newer_run_done) = Some ''Failed to fetch recipe 2''"
  by (simp add: newer_run_done_def favorites_changed_def FavoritesPage_def
        FavoritesPage_effect_def settle_recipe_def meal_def not_found_def fetchPromise_def
        ok_def drop_batch_def batch_fulfilled_def batch_rejected_def catch_message_def
        new_Error_def List.map_filter_def)

text \<open>
  C5, amended. The hydration runs again in full whenever the favorites change to a non-empty
  sequence: the page is loading, its error is cleared, and a new run starts with a pending
  retrieval for every id. A change to no favorites clears the recipes and starts no run.
  A change supersedes nothing, the effect having no cleanup: a run in flight stays in flight
  as it was, and when its last retrieval comes back after the change it sets the recipes to
  its own results, or the error to its own failure.
\<close>

theorem favorites_change_reruns_in_full:
  assumes "favs \<noteq> []"
  shows "favorites_changed favs st
           = st\<lparr>page_favorites := favs, page_loading := True, page_error := None,
                batches := (started st, \<lparr>ids = favs, slots = replicate (length favs) None\<rparr>)
                           # batches st,
                started := Suc (started st)\<rparr>
         \<and> favorites_changed [] st = st\<lparr>page_favorites := [], favoriteRecipes := []\<rparr>
         \<and> (map_of (batches st) b = Some bt \<and> b < started st \<and> i < length (ids bt)
             \<and> i < length (slots bt) \<and> slots bt ! i = None \<longrightarrow>
              map_of (batches (favorites_changed favs st)) b = Some bt
              \<and> (fetchPromise (ids bt ! i) outcome = Inl err \<longrightarrow>
                   page_error (settle_recipe b i outcome (favorites_changed favs st))
                     = Some (catch_message err)
                   \<and> \<not> page_loading (settle_recipe b i outcome (favorites_changed favs st)))
              \<and> (fetchPromise (ids bt ! i) outcome = Inr v
                  \<and> None \<notin> set ((slots bt)[i := Some v]) \<longrightarrow>
                   favoriteRecipes (settle_recipe b i outcome (favorites_changed favs st))
                     = List.map_filter (\<lambda>r. r) (map the ((slots bt)[i := Some v]))
                   \<and> \<not> page_loading (settle_recipe b i outcome (favorites_changed favs st))))"
proof -
  let ?st' = "favorites_changed favs st"
  have rerun: "?st' = st\<lparr>page_favorites := favs, page_loading := True, page_error := None,
                batches := (started st, \<lparr>ids = favs, slots = replicate (length favs) None\<rparr>)
                           # batches st,
                started := Suc (started st)\<rparr>"
    using assms by (simp add: favorites_changed_def FavoritesPage_effect_def)
  have none: "favorites_changed [] st = st\<lparr>page_favorites := [], favoriteRecipes := []\<rparr>"
    by (simp add: favorites_changed_def FavoritesPage_effect_def)
  have older: "map_of (batches ?st') b = Some bt
               \<and> (fetchPromise (ids bt ! i) outcome = Inl err \<longrightarrow>
                    page_error (settle_recipe b i outcome ?st') = Some (catch_message err)
                    \<and> \<not> page_loading (settle_recipe b i outcome ?st'))
               \<and> (fetchPromise (ids bt ! i) outcome = Inr v
                   \<and> None \<notin> set ((slots bt)[i := Some v]) \<longrightarrow>
                    favoriteRecipes (settle_recipe b i outcome ?st')
                      = List.map_filter (\<lambda>r. r) (map the ((slots bt)[i := Some v]))
                    \<and> \<not> page_loading (settle_recipe b i outcome ?st'))"
    if b: "map_of (batches st) b = Some bt" "b < started st"
      and i: "i < length (ids bt)" "i < length (slots bt)" "slots bt ! i = None"
  proof -
    have still: "map_of (batches ?st') b = Some bt"
      using b by (simp add: rerun)
    have rejected: "page_error (settle_recipe b i outcome ?st') = Some (catch_message err)
                    \<and> \<not> page_loading (settle_recipe b i outcome ?st')"
      if "fetchPromise (ids bt ! i) outcome = Inl err"
      using settle_recipe_rejected [OF still i that] by (simp add: batch_rejected_states)
    have fulfilled: "favoriteRecipes (settle_recipe b i outcome ?st')
                       = List.map_filter (\<lambda>r. r) (map the ((slots bt)[i := Some v]))
                     \<and> \<not> page_loading (settle_recipe b i outcome ?st')"
      if "fetchPromise (ids bt ! i) outcome = Inr v" "None \<notin> set ((slots bt)[i := Some v])"
      using still i that by (simp add: settle_recipe_def Let_def batch_fulfilled_def)
    show ?thesis
      using still rejected fulfilled by blast
  qed
  show ?thesis
    using rerun none older by blast
qed

theorem favorites_change_reruns_in_full_witness:
  "batches (favorites_changed [''1''] first_of_two_done)
     = [(1, \<lparr>ids = [''1''], slots = [None]\<rparr>),
        (0, \<lparr>ids = [''1'', ''2''], slots = [Some (Some ''one''), None]\<rparr>)]
   \<and> page_loading (favorites_changed [''1''] first_of_two_done)
   \<and> favoriteRecipes (settle_recipe 0 1 (meal ''two'') (favorites_changed [''1''] first_of_two_done))
       = [''one'', ''two'']
   \<and> page_error (settle_recipe 0 1 not_found (favorites_changed [''1''] first_of_two_done))
       = Some ''Failed to fetch recipe 2''"
proof -
  let ?bt = "\<lparr>ids = [''1'', ''2''], slots = [Some (Some ''one''), None]\<rparr>"
  have st: "batches first_of_two_done = [(0, ?bt)]" "started first_of_two_done = 1"
    by (simp_all add: first_of_two_done_def FavoritesPage_def FavoritesPage_effect_def
          settle_recipe_def meal_def fetchPromise_def ok_def drop_batch_def)
  have comes_back: "fetchPromise (ids ?bt ! 1) (meal ''two'') = Inr (Some ''two'')"
    "fetchPromise (ids ?bt ! 1) not_found = Inl (new_Error ''Failed to fetch recipe 2'')"
    by (simp_all add: fetchPromise_def meal_def not_found_def ok_def)
  have changed: "[''1''] \<noteq> ([] :: string list)"
    by simp
  have rerun: "batches (favorites_changed [''1''] first_of_two_done)
                 = [(1, \<lparr>ids = [''1''], slots = [None]\<rparr>), (0, ?bt)]"
    "page_loading (favorites_changed [''1''] first_of_two_done)"
    using favorites_change_reruns_in_full [OF changed, of first_of_two_done, THEN conjunct1] st
    by simp_all
  have success: "favoriteRecipes
                   (settle_recipe 0 1 (meal ''two'') (favorites_changed [''1''] first_of_two_done))
                   = [''one'', ''two'']"
    using favorites_change_reruns_in_full
        [OF changed, of first_of_two_done 0 ?bt 1 "meal ''two''"
          "new_Error ''Failed to fetch recipe 2''" "Some ''two''",
          THEN conjunct2, THEN conjunct2]
      st comes_back(1)
    by (simp add: List.map_filter_def)
  have failure: "page_error
                   (settle_recipe 0 1 not_found (favorites_changed [''1''] first_of_two_done))
                   = Some ''Failed to fetch recipe 2''"
    using favorites_change_reruns_in_full
        [OF changed, of first_of_two_done 0 ?bt 1 not_found
          "new_Error ''Failed to fetch recipe 2''" "Some ''two''",
          THEN conjunct2, THEN conjunct2]
      st comes_back(2)
    by (simp add: catch_message_def new_Error_def)
  show ?thesis
    using rerun success failure by simp
qed

text \<open>
  C10. In the hydration of the favorites, a lookup that comes back with a success status and
  the body \<^verbatim>\<open>{ "meals": null }\<close> is a failure: reading \<^verbatim>\<open>meals[0]\<close> throws. The whole run fails
  with that error's message, whatever the other retrievals of the run did: the page shows the
  error and no recipe card, and its recipes are what they were before.
\<close>

theorem null_meals_fails_whole_batch:
  fixes st :: "'r page"
  assumes "map_of (batches st) b = Some bt" and "i < length (ids bt)"
    and "i < length (slots bt)" and "slots bt ! i = None" and "200 \<le> sc" and "sc \<le> 299"
  shows "fetchPromise (ids bt ! i) (null_meals sc :: 'r meals_response fetch_outcome)
           = Inl null_meals_TypeError
         \<and> page_error (settle_recipe b i (null_meals sc) st) = Some (message null_meals_TypeError)
         \<and> \<not> page_loading (settle_recipe b i (null_meals sc) st)
         \<and> favoriteRecipes (settle_recipe b i (null_meals sc) st) = favoriteRecipes st
         \<and> map_of (batches (settle_recipe b i (null_meals sc) st)) b = None
         \<and> FavoritesPage_render (settle_recipe b i (null_meals sc) st)
             = ErrorMessage (message null_meals_TypeError)
         \<and> cards (FavoritesPage_render (settle_recipe b i (null_meals sc) st)) = []"
proof -
  let ?st' = "settle_recipe b i (null_meals sc) st"
  have thrown: "fetchPromise (ids bt ! i) (null_meals sc :: 'r meals_response fetch_outcome)
                  = Inl null_meals_TypeError"
    using assms(5,6) by (rule fetchPromise_null_meals)
  have msg: "catch_message null_meals_TypeError = message null_meals_TypeError"
    "message null_meals_TypeError \<noteq> []"
    by (simp_all add: catch_message_def null_meals_TypeError_def)
  have rej: "?st' = batch_rejected null_meals_TypeError (drop_batch b st)"
    using assms(1-4) thrown by (rule settle_recipe_rejected)
  have state: "page_error ?st' = Some (message null_meals_TypeError)" "\<not> page_loading ?st'"
    "favoriteRecipes ?st' = favoriteRecipes st" "map_of (batches ?st') b = None"
    unfolding rej
    by (simp_all add: batch_rejected_states drop_batch_states map_of_drop_batch msg(1))
  show ?thesis
    using thrown state render_error [OF state(2,1) msg(2)] by simp
qed

theorem null_meals_fails_whole_batch_witness:
  "slots (the (map_of (batches first_of_two_done) 0)) = [Some (Some ''one''), None]
   \<and> page_error (settle_recipe 0 1 (null_meals 200) first_of_two_done)
       = Some (message null_meals_TypeError)
   \<and> cards (FavoritesPage_render (settle_recipe 0 1 (null_meals 200) first_of_two_done)) = []"
proof -
  let ?bt = "\<lparr>ids = [''1'', ''2''], slots = [Some (Some ''one''), None]\<rparr>"
  have st: "map_of (batches first_of_two_done) 0 = Some ?bt"
    by (simp add: first_of_two_done_def FavoritesPage_def FavoritesPage_effect_def
          settle_recipe_def meal_def fetchPromise_def ok_def drop_batch_def)
  show ?thesis
    using null_meals_fails_whole_batch [OF st, of 1 200]
    by (simp add: st cards_def)
qed

section \<open>The ingredient list\<close>

lemma extractIngredients_loop_step:
  assumes "i \<le> 20"
  shows "extractIngredients_loop trim recipe i acc
           = extractIngredients_loop trim recipe (Suc i)
               (acc @ (case ingredient_at trim recipe i of None \<Rightarrow> [] | Some e \<Rightarrow> [e]))"
  using assms
  by (subst extractIngredients_loop.simps)
     (auto simp: ingredient_at_def truthy_def Let_def simp del: string_of_nat.simps
        split: option.splits)

lemma extractIngredients_loop_done:
  "20 < i \<Longrightarrow> extractIngredients_loop trim recipe i acc = acc"
  by (subst extractIngredients_loop.simps) simp

lemma extractIngredients_loop_eq:
  assumes "i \<le> 21"
  shows "extractIngredients_loop trim recipe i acc
           = acc @ List.map_filter (ingredient_at trim recipe) [i..<21]"
  using assms
proof (induction "21 - i" arbitrary: i acc)
  case 0
  then have "i = 21"
    by simp
  then show ?case
    by (simp add: extractIngredients_loop_done List.map_filter_def)
next
  case (Suc n)
  then have i: "i \<le> 20" "n = 21 - Suc i" "Suc i \<le> 21"
    by simp_all
  have "[i..<21] = i # [Suc i..<21]"
    using i(1) by (simp add: upt_conv_Cons)
  then have "List.map_filter (ingredient_at trim recipe) [i..<21]
               = (case ingredient_at trim recipe i of None \<Rightarrow> [] | Some e \<Rightarrow> [e])
                 @ List.map_filter (ingredient_at trim recipe) [Suc i..<21]"
    by (simp add: List.map_filter_def split: option.splits)
  then show ?case
    using Suc.hyps(1) [OF i(2,3)] by (simp add: extractIngredients_loop_step [OF i(1)])
qed

text \<open>
  \<open>extractIngredients\<close> returns, in the order of the indices 1 to 20, the entries of the
  indices that have an ingredient: at most 20 of them, none with an empty ingredient name.
\<close>

theorem extractIngredients_in_order:
  "extractIngredients trim recipe = List.map_filter (ingredient_at trim recipe) [1..<21]
   \<and> length (extractIngredients trim recipe) \<le> 20
   \<and> list_all (\<lambda>e. ingredient e \<noteq> []) (extractIngredients trim recipe)"
proof -
  have eq: "extractIngredients trim recipe = List.map_filter (ingredient_at trim recipe) [1..<21]"
    using extractIngredients_loop_eq [of 1 trim recipe "[]"] by (simp add: extractIngredients_def)
  have "length (List.map_filter (ingredient_at trim recipe) [1..<21]) \<le> length [1..<21::nat]"
    unfolding List.map_filter_def length_map by (rule length_filter_le [THEN order_trans]) simp
  then have len: "length (extractIngredients trim recipe) \<le> 20"
    by (simp add: eq)
  have "ingredient e \<noteq> []" if "ingredient_at trim recipe i = Some e" for i e
    using that
    by (auto simp: ingredient_at_def simp del: string_of_nat.simps split: option.splits if_splits)
  then have "list_all (\<lambda>e. ingredient e \<noteq> []) (List.map_filter (ingredient_at trim recipe) xs)"
    for xs
    by (induction xs) (auto simp: List.map_filter_def)
  then show ?thesis
    using eq len by simp
qed

end
